theory Spec2Isabelle
  imports
    Complex_Main
    "HOL-Library.AList"
    "HOL-Library.Char_ord"
    "HOL-Library.List_Lexorder"
    "HOL-Library.Multiset"
    "HOL-Library.Product_Lexorder"
begin

section \<open>PIDNetwork: the graph builder of \<open>prague_dataset.py\<close>\<close>

text \<open>
  The four tables read by \<open>csv.DictReader\<close> are lists of rows; a row is a dictionary from
  column names to text. \<open>row.get(k)\<close> is the application \<open>row k\<close> (\<open>None\<close> when the
  column is absent) and \<open>row[k]\<close> raises \<open>KeyError\<close> when it is absent. Python strings are
  modelled as \<open>string\<close>, compared character by character in code order; integers are
  unbounded (\<open>int\<close>); the floating-point travel times are modelled by exact rationals, so
  rounding is outside the model. Every cell of a row is a text: the \<open>None\<close> cells that
  \<open>csv.DictReader\<close> produces for a line with too few fields are not modelled.
\<close>

type_synonym row = "string \<rightharpoonup> string"

datatype error = KeyError | ValueError

definition getitem :: "row \<Rightarrow> string \<Rightarrow> error + string" where
  "getitem r k = (case r k of None \<Rightarrow> Inl KeyError | Some v \<Rightarrow> Inr v)"

subsection \<open>Text to numbers: \<open>str.split\<close>, \<open>int\<close>, \<open>float\<close>\<close>

definition is_space :: "char \<Rightarrow> bool" where
  "is_space c \<longleftrightarrow> c \<in> {CHR '' '', CHR 0x09, CHR 0x0A, CHR 0x0B, CHR 0x0C, CHR 0x0D}"

definition strip :: "string \<Rightarrow> string" where
  "strip s = rev (dropWhile is_space (rev (dropWhile is_space s)))"

definition is_digit :: "char \<Rightarrow> bool" where
  "is_digit c \<longleftrightarrow> CHR ''0'' \<le> c \<and> c \<le> CHR ''9''"

definition digit_val :: "char \<Rightarrow> nat" where
  "digit_val c = of_char c - 48"

text \<open>
  A run of decimal digits in which single underscores may stand between two digits, as
  \<open>int\<close> and \<open>float\<close> accept it. \<open>digits_from acc s\<close> reads \<open>s\<close> after at least one
  digit has been read into \<open>acc\<close>.
\<close>

fun digits_from :: "nat \<Rightarrow> string \<Rightarrow> nat option" where
  "digits_from acc [] = Some acc"
| "digits_from acc [c] = (if is_digit c then Some (acc * 10 + digit_val c) else None)"
| "digits_from acc (c # d # cs) =
     (if is_digit c then digits_from (acc * 10 + digit_val c) (d # cs)
      else if c = CHR ''_'' \<and> is_digit d then digits_from (acc * 10 + digit_val d) cs
      else None)"

definition digit_group :: "string \<Rightarrow> nat option" where
  "digit_group s =
     (case s of [] \<Rightarrow> None
      | c # cs \<Rightarrow> if is_digit c then digits_from (digit_val c) cs else None)"

definition split_sign :: "string \<Rightarrow> bool \<times> string" where
  "split_sign s =
     (case s of [] \<Rightarrow> (False, [])
      | c # cs \<Rightarrow> if c = CHR ''-'' then (True, cs)
                 else if c = CHR ''+'' then (False, cs) else (False, s))"

text \<open>\<open>int(text)\<close>: surrounding white space, an optional sign, a digit run; otherwise
  \<open>ValueError\<close>. White space and digits are the ASCII ones, and the interpreter's limit on
  the number of digits is not modelled.\<close>

definition py_int :: "string \<Rightarrow> error + int" where
  "py_int s =
     (case split_sign (strip s) of
        (neg, body) \<Rightarrow>
          (case digit_group body of
             None \<Rightarrow> Inl ValueError
           | Some n \<Rightarrow> Inr (if neg then - int n else int n)))"

text \<open>\<open>text.split(sep)\<close> with a one-character separator: every occurrence separates, so
  the result has one more part than there are separators.\<close>

fun str_split :: "char \<Rightarrow> string \<Rightarrow> string list" where
  "str_split sep [] = [[]]"
| "str_split sep (c # cs) =
     (if c = sep then [] # str_split sep cs
      else (case str_split sep cs of
              [] \<Rightarrow> [[c]]
            | p # ps \<Rightarrow> (c # p) # ps))"

subsection \<open>\<open>_parse_gtfs_time\<close>\<close>

text \<open>The result \<open>Inr None\<close> is Python's \<open>None\<close> (unparseable), \<open>Inl ValueError\<close> the
  exception raised by \<open>int\<close>.\<close>

definition parse_gtfs_time :: "string \<Rightarrow> error + int option" where
  "parse_gtfs_time time_text =
     (if time_text = [] then Inr None
      else (case str_split CHR '':'' time_text of
              [p0, p1, p2] \<Rightarrow>
                (case py_int p0 of Inl e \<Rightarrow> Inl e | Inr hours \<Rightarrow>
                 (case py_int p1 of Inl e \<Rightarrow> Inl e | Inr minutes \<Rightarrow>
                  (case py_int p2 of Inl e \<Rightarrow> Inl e | Inr seconds \<Rightarrow>
                     Inr (Some (hours * 3600 + minutes * 60 + seconds)))))
            | _ \<Rightarrow> Inr None))"

subsection \<open>\<open>float\<close>\<close>

text \<open>
  \<open>float(text)\<close> accepts, after stripping white space and an optional sign, the words
  \<open>inf\<close>, \<open>infinity\<close> and \<open>nan\<close> in any letter case, and decimal numbers with an
  optional fraction and exponent; anything else raises \<open>ValueError\<close>. A decimal that
  rounds beyond the largest double becomes an infinity. A finite result is represented by
  the exact value of the decimal.
\<close>

datatype pyfloat = Finite rat | Infinity bool | NaN

definition lower :: "char \<Rightarrow> char" where
  "lower c = (if CHR ''A'' \<le> c \<and> c \<le> CHR ''Z'' then char_of (of_char c + (32::nat)) else c)"

definition is_exp_mark :: "char \<Rightarrow> bool" where
  "is_exp_mark c \<longleftrightarrow> c = CHR ''e'' \<or> c = CHR ''E''"

definition mantissa_value :: "string \<Rightarrow> rat option" where
  "mantissa_value m =
     (let ip = takeWhile (\<lambda>c. c \<noteq> CHR ''.'') m;
          fd = drop 1 (dropWhile (\<lambda>c. c \<noteq> CHR ''.'') m)
      in if ip = [] \<and> fd = [] then None
         else (case (if ip = [] then Some 0 else digit_group ip) of
                 None \<Rightarrow> None
               | Some i \<Rightarrow>
                   (case (if fd = [] then Some 0 else digit_group fd) of
                      None \<Rightarrow> None
                    | Some f \<Rightarrow>
                        Some (of_nat i + of_nat f / 10 ^ length (filter is_digit fd)))))"

definition exponent_value :: "string \<Rightarrow> int option" where
  "exponent_value e =
     (case e of [] \<Rightarrow> Some 0
      | _ # es \<Rightarrow>
          (case split_sign es of
             (neg, body) \<Rightarrow>
               (case digit_group body of
                  None \<Rightarrow> None
                | Some n \<Rightarrow> Some (if neg then - int n else int n))))"

definition decimal_value :: "string \<Rightarrow> rat option" where
  "decimal_value s =
     (case mantissa_value (takeWhile (\<lambda>c. \<not> is_exp_mark c) s) of
        None \<Rightarrow> None
      | Some m \<Rightarrow>
          (case exponent_value (dropWhile (\<lambda>c. \<not> is_exp_mark c) s) of
             None \<Rightarrow> None
           | Some e \<Rightarrow> Some (if 0 \<le> e then m * 10 ^ nat e else m / 10 ^ nat (- e))))"

definition overflow_bound :: rat where
  "overflow_bound = 2 ^ 1024 - 2 ^ 970"

definition py_float :: "string \<Rightarrow> error + pyfloat" where
  "py_float s =
     (case split_sign (strip s) of
        (neg, body) \<Rightarrow>
          if map lower body \<in> {''inf'', ''infinity''} then Inr (Infinity neg)
          else if map lower body = ''nan'' then Inr NaN
          else (case decimal_value body of
                  None \<Rightarrow> Inl ValueError
                | Some v \<Rightarrow>
                    if overflow_bound \<le> v then Inr (Infinity neg)
                    else Inr (Finite (if neg then - v else v))))"

subsection \<open>\<open>_build_graph\<close>: route and trip selection\<close>

record feed =
  stops :: "row list"
  stop_times :: "row list"
  trips :: "row list"
  routes :: "row list"

text \<open>The truth value of \<open>row.get(k)\<close>: present and not empty.\<close>

definition truthy :: "string option \<Rightarrow> bool" where
  "truthy v = (case v of None \<Rightarrow> False | Some s \<Rightarrow> s \<noteq> [])"

definition text_or_empty :: "string option \<Rightarrow> string" where
  "text_or_empty v = (case v of None \<Rightarrow> [] | Some s \<Rightarrow> s)"

definition member_opt :: "string option \<Rightarrow> string set \<Rightarrow> bool" where
  "member_opt v S = (case v of None \<Rightarrow> False | Some s \<Rightarrow> s \<in> S)"

definition route_types :: "string set" where
  "route_types = {''0'', ''1''}"

fun selected_route_ids :: "row list \<Rightarrow> error + string set" where
  "selected_route_ids [] = Inr {}"
| "selected_route_ids (r # rs) =
     (if member_opt (r ''route_type'') route_types then
        (case getitem r ''route_id'' of
           Inl e \<Rightarrow> Inl e
         | Inr route_id \<Rightarrow>
             (case selected_route_ids rs of
                Inl e \<Rightarrow> Inl e
              | Inr ids \<Rightarrow> Inr (insert route_id ids)))
      else selected_route_ids rs)"

type_synonym trip_key = "string \<times> string"

text \<open>The loop over \<open>self.trips\<close>; the dictionary \<open>selected_trips\<close> is an association
  list in insertion order.\<close>

fun select_trips ::
  "string set \<Rightarrow> row list \<Rightarrow> (trip_key \<times> string) list \<Rightarrow> error + (trip_key \<times> string) list"
where
  "select_trips ids [] selected_trips = Inr selected_trips"
| "select_trips ids (r # rs) selected_trips =
     (case r ''route_id'' of
        None \<Rightarrow> select_trips ids rs selected_trips
      | Some route_id \<Rightarrow>
          if route_id \<notin> ids then select_trips ids rs selected_trips
          else if map_of selected_trips (route_id, text_or_empty (r ''direction_id'')) \<noteq> None
          then select_trips ids rs selected_trips
          else (case getitem r ''trip_id'' of
                  Inl e \<Rightarrow> Inl e
                | Inr trip_id \<Rightarrow>
                    select_trips ids rs
                      (AList.update (route_id, text_or_empty (r ''direction_id'')) trip_id
                         selected_trips)))"

subsection \<open>Stop filter and geocoder\<close>

definition valid_zone_ids :: "string set" where
  "valid_zone_ids = {''0'', ''P'', ''B'', ''0,B'', ''P,0''}"

definition stop_rows :: "row list \<Rightarrow> row list" where
  "stop_rows rs =
     filter (\<lambda>r. member_opt (r ''zone_id'') valid_zone_ids \<and> truthy (r ''stop_name'')) rs"

definition stop_name_by_id :: "row list \<Rightarrow> (string \<times> string) list" where
  "stop_name_by_id rs =
     fold (\<lambda>r d. if truthy (r ''stop_id'') \<and> truthy (r ''stop_name'')
                  then AList.update (text_or_empty (r ''stop_id''))
                         (text_or_empty (r ''stop_name'')) d
                  else d) rs []"

type_synonym coords = "pyfloat \<times> pyfloat"

fun stop_info_by_name :: "row list \<Rightarrow> (string \<times> coords) list \<Rightarrow> error + (string \<times> coords) list"
where
  "stop_info_by_name [] info = Inr info"
| "stop_info_by_name (r # rs) info =
     (case getitem r ''stop_name'' of
        Inl e \<Rightarrow> Inl e
      | Inr name \<Rightarrow>
          if map_of info name \<noteq> None then stop_info_by_name rs info
          else if text_or_empty (r ''stop_lon'') = [] \<or> text_or_empty (r ''stop_lat'') = []
          then stop_info_by_name rs info
          else (case py_float (text_or_empty (r ''stop_lon'')) of
                  Inl e \<Rightarrow> stop_info_by_name rs info
                | Inr lon_value \<Rightarrow>
                    (case py_float (text_or_empty (r ''stop_lat'')) of
                       Inl e \<Rightarrow> stop_info_by_name rs info
                     | Inr lat_value \<Rightarrow>
                         stop_info_by_name rs
                           (AList.update name (lon_value, lat_value) info))))"

subsection \<open>Segment time aggregator\<close>

definition selected_stop_times :: "string set \<Rightarrow> (string \<times> string) list \<Rightarrow> row list \<Rightarrow> row list"
where
  "selected_stop_times trip_ids names rs =
     filter (\<lambda>r. member_opt (r ''trip_id'') trip_ids
                \<and> (case r ''stop_id'' of None \<Rightarrow> False | Some i \<Rightarrow> map_of names i \<noteq> None)) rs"

text \<open>The key of \<open>sorted\<close>: the pair of the trip id and the stop sequence as an integer.
  Pairs are compared lexicographically, texts character by character.\<close>

definition sort_key_of :: "row \<Rightarrow> error + (string \<times> int)" where
  "sort_key_of r =
     (case getitem r ''trip_id'' of
        Inl e \<Rightarrow> Inl e
      | Inr trip_id \<Rightarrow>
          (case getitem r ''stop_sequence'' of
             Inl e \<Rightarrow> Inl e
           | Inr seq_text \<Rightarrow>
               (case py_int seq_text of
                  Inl e \<Rightarrow> Inl e
                | Inr n \<Rightarrow> Inr (trip_id, n))))"

text \<open>\<open>sorted\<close> computes the key of every element first, in list order, then sorts
  stably by the keys.\<close>

fun with_keys :: "row list \<Rightarrow> error + ((string \<times> int) \<times> row) list" where
  "with_keys [] = Inr []"
| "with_keys (r # rs) =
     (case sort_key_of r of
        Inl e \<Rightarrow> Inl e
      | Inr k \<Rightarrow> (case with_keys rs of Inl e \<Rightarrow> Inl e | Inr krs \<Rightarrow> Inr ((k, r) # krs)))"

definition sorted_stop_times :: "row list \<Rightarrow> error + row list" where
  "sorted_stop_times rs =
     (case with_keys rs of Inl e \<Rightarrow> Inl e | Inr krs \<Rightarrow> Inr (map snd (sort_key fst krs)))"

record visit =
  stop_name :: string
  arrival :: string
  departure :: string

text \<open>\<open>d[k].append(v)\<close> on a \<open>defaultdict(list)\<close>.\<close>

definition append_to :: "'k \<Rightarrow> 'v \<Rightarrow> ('k \<times> 'v list) list \<Rightarrow> ('k \<times> 'v list) list" where
  "append_to k v d = AList.map_default k [v] (\<lambda>vs. vs @ [v]) d"

fun times_by_trip ::
  "(string \<times> string) list \<Rightarrow> row list \<Rightarrow> (string \<times> visit list) list
     \<Rightarrow> error + (string \<times> visit list) list"
where
  "times_by_trip names [] acc = Inr acc"
| "times_by_trip names (r # rs) acc =
     (case getitem r ''trip_id'' of
        Inl e \<Rightarrow> Inl e
      | Inr trip_id \<Rightarrow>
          (case getitem r ''stop_id'' of
             Inl e \<Rightarrow> Inl e
           | Inr stop_id \<Rightarrow>
               (case map_of names stop_id of
                  None \<Rightarrow> Inl KeyError
                | Some name \<Rightarrow>
                    times_by_trip names rs
                      (append_to trip_id
                         \<lparr>stop_name = name,
                          arrival = text_or_empty (r ''arrival_time''),
                          departure = text_or_empty (r ''departure_time'')\<rparr> acc))))"

type_synonym pair = "string \<times> string"

text \<open>The inner loop over \<open>zip(rows, rows[1:])\<close> of one trip.\<close>

fun trip_segment_times :: "visit list \<Rightarrow> (pair \<times> rat list) list \<Rightarrow> error + (pair \<times> rat list) list"
where
  "trip_segment_times (current_row # next_row # rest) segment_times =
     (case parse_gtfs_time (departure current_row) of
        Inl e \<Rightarrow> Inl e
      | Inr dep_seconds \<Rightarrow>
          (case parse_gtfs_time (arrival next_row) of
             Inl e \<Rightarrow> Inl e
           | Inr arr_seconds \<Rightarrow>
               (case (dep_seconds, arr_seconds) of
                  (Some dep, Some arr) \<Rightarrow>
                    if rat_of_int (arr - dep) / 60 < 0
                    then trip_segment_times (next_row # rest) segment_times
                    else trip_segment_times (next_row # rest)
                           (append_to (stop_name current_row, stop_name next_row)
                              (rat_of_int (arr - dep) / 60) segment_times)
                | _ \<Rightarrow> trip_segment_times (next_row # rest) segment_times)))"
| "trip_segment_times rows segment_times = Inr segment_times"

fun segment_times ::
  "(string \<times> visit list) list \<Rightarrow> (pair \<times> rat list) list \<Rightarrow> error + (pair \<times> rat list) list"
where
  "segment_times [] acc = Inr acc"
| "segment_times ((trip_id, rows) # others) acc =
     (case trip_segment_times rows acc of
        Inl e \<Rightarrow> Inl e
      | Inr acc' \<Rightarrow> segment_times others acc')"

definition avg_segment_time :: "(pair \<times> rat list) list \<Rightarrow> (pair \<times> rat) list" where
  "avg_segment_time st =
     map (\<lambda>(p, values). (p, sum_list values / of_nat (length values)))
       (filter (\<lambda>(p, values). values \<noteq> []) st)"

subsection \<open>Graph builder\<close>

text \<open>
  The graph is an \<open>nx.MultiDiGraph\<close>: a dictionary of nodes with their attributes (here the
  optional coordinates), and edges that may be parallel. \<open>add_edge\<close> without a key first
  adds each endpoint that is not yet a node and then adds a new edge, also when an edge
  between the two nodes exists. \<open>set_node_attributes\<close> with a dictionary of dictionaries
  updates the attributes of the nodes that exist and ignores the other names.
\<close>

record graph =
  nodes :: "(string \<times> coords option) list"
  edges :: "(string \<times> string \<times> rat) list"

definition empty_graph :: graph where
  "empty_graph = \<lparr>nodes = [], edges = []\<rparr>"

definition add_node :: "string \<Rightarrow> graph \<Rightarrow> graph" where
  "add_node n g = (if map_of (nodes g) n \<noteq> None then g else g\<lparr>nodes := nodes g @ [(n, None)]\<rparr>)"

definition add_edge :: "string \<Rightarrow> string \<Rightarrow> rat \<Rightarrow> graph \<Rightarrow> graph" where
  "add_edge u v w g = (add_node v (add_node u g))\<lparr>edges := edges g @ [(u, v, w)]\<rparr>"

fun trip_edges :: "(pair \<times> rat) list \<Rightarrow> string list \<Rightarrow> graph \<Rightarrow> graph" where
  "trip_edges avg (from_stop # to_stop # rest) g =
     (case map_of avg (from_stop, to_stop) of
        None \<Rightarrow> trip_edges avg (to_stop # rest) g
      | Some avg_time_min \<Rightarrow>
          trip_edges avg (to_stop # rest) (add_edge from_stop to_stop avg_time_min g))"
| "trip_edges avg stop_names g = g"

definition all_edges :: "(pair \<times> rat) list \<Rightarrow> (string \<times> visit list) list \<Rightarrow> graph \<Rightarrow> graph" where
  "all_edges avg tbt g = fold (\<lambda>(trip_id, rows). trip_edges avg (map stop_name rows)) tbt g"

definition set_node_attributes :: "(string \<times> coords) list \<Rightarrow> graph \<Rightarrow> graph" where
  "set_node_attributes info g =
     fold (\<lambda>(n, d) h. if map_of (nodes h) n \<noteq> None
                       then h\<lparr>nodes := AList.update n (Some d) (nodes h)\<rparr> else h) info g"

subsection \<open>The whole of \<open>_build_graph\<close>\<close>

definition build_graph :: "feed \<Rightarrow> error + graph" where
  "build_graph f =
     (case selected_route_ids (routes f) of Inl e \<Rightarrow> Inl e | Inr ids \<Rightarrow>
      (case select_trips ids (trips f) [] of Inl e \<Rightarrow> Inl e | Inr sel \<Rightarrow>
       (case stop_info_by_name (stop_rows (stops f)) [] of Inl e \<Rightarrow> Inl e | Inr info \<Rightarrow>
        (case sorted_stop_times
                (selected_stop_times (snd ` set sel) (stop_name_by_id (stop_rows (stops f)))
                   (stop_times f)) of
           Inl e \<Rightarrow> Inl e
         | Inr sorted_rows \<Rightarrow>
          (case times_by_trip (stop_name_by_id (stop_rows (stops f))) sorted_rows [] of
             Inl e \<Rightarrow> Inl e
           | Inr tbt \<Rightarrow>
            (case segment_times tbt [] of
               Inl e \<Rightarrow> Inl e
             | Inr st \<Rightarrow>
                 Inr (set_node_attributes info
                        (all_edges (avg_segment_time st) tbt empty_graph))))))))"

text \<open>The value of the local variable \<open>times_by_trip\<close> when \<open>_build_graph\<close> reaches the
  aggregation loop: the ordered visits of every selected trip.\<close>

definition trip_table :: "feed \<Rightarrow> error + (string \<times> visit list) list" where
  "trip_table f =
     (case selected_route_ids (routes f) of Inl e \<Rightarrow> Inl e | Inr ids \<Rightarrow>
      (case select_trips ids (trips f) [] of Inl e \<Rightarrow> Inl e | Inr sel \<Rightarrow>
       (case stop_info_by_name (stop_rows (stops f)) [] of Inl e \<Rightarrow> Inl e | Inr info \<Rightarrow>
        (case sorted_stop_times
                (selected_stop_times (snd ` set sel) (stop_name_by_id (stop_rows (stops f)))
                   (stop_times f)) of
           Inl e \<Rightarrow> Inl e
         | Inr sorted_rows \<Rightarrow>
             times_by_trip (stop_name_by_id (stop_rows (stops f))) sorted_rows []))))"

subsection \<open>Notions used to state the properties\<close>

text \<open>The consecutive pairs of a sequence, \<open>zip(xs, xs[1:])\<close>.\<close>

definition consecutive :: "'a list \<Rightarrow> ('a \<times> 'a) list" where
  "consecutive xs = zip xs (tl xs)"

text \<open>The travel-time sample of one consecutive pair of visits, in minutes, when both
  times parse and the duration is not negative.\<close>

definition sample_of :: "visit \<Rightarrow> visit \<Rightarrow> rat option" where
  "sample_of c n =
     (case (parse_gtfs_time (departure c), parse_gtfs_time (arrival n)) of
        (Inr (Some dep), Inr (Some arr)) \<Rightarrow>
          if arr < dep then None else Some (rat_of_int (arr - dep) / 60)
      | _ \<Rightarrow> None)"

definition trip_samples :: "pair \<Rightarrow> visit list \<Rightarrow> rat list" where
  "trip_samples p rows =
     List.map_filter
       (\<lambda>(c, n). if (stop_name c, stop_name n) = p then sample_of c n else None)
       (consecutive rows)"

text \<open>All surviving samples of a directed pair of stop names, over the trips in order.\<close>

definition pair_samples :: "(string \<times> visit list) list \<Rightarrow> pair \<Rightarrow> rat list" where
  "pair_samples tbt p = concat (map (\<lambda>(trip_id, rows). trip_samples p rows) tbt)"

definition mean :: "rat list \<Rightarrow> rat" where
  "mean xs = sum_list xs / of_nat (length xs)"

definition parallel_edges :: "graph \<Rightarrow> string \<Rightarrow> string \<Rightarrow> nat" where
  "parallel_edges g u v = length (filter (\<lambda>e. fst e = u \<and> fst (snd e) = v) (edges g))"

text \<open>The number of times the selected trips traverse a directed pair that has an
  averaged time.\<close>

definition traversals :: "(pair \<times> rat) list \<Rightarrow> (string \<times> visit list) list \<Rightarrow> pair \<Rightarrow> nat" where
  "traversals avg tbt p =
     (if map_of avg p = None then 0
      else length (filter (\<lambda>q. q = p)
             (concat (map (\<lambda>(trip_id, rows). consecutive (map stop_name rows)) tbt))))"

text \<open>The coordinates the geocoder reads from one stop row: both texts non-empty and
  both accepted by \<open>float\<close>.\<close>

definition coords_of :: "row \<Rightarrow> coords option" where
  "coords_of r =
     (if text_or_empty (r ''stop_lon'') = [] \<or> text_or_empty (r ''stop_lat'') = [] then None
      else (case (py_float (text_or_empty (r ''stop_lon'')),
                  py_float (text_or_empty (r ''stop_lat''))) of
              (Inr lon_value, Inr lat_value) \<Rightarrow> Some (lon_value, lat_value)
            | _ \<Rightarrow> None))"

definition is_finite :: "pyfloat \<Rightarrow> bool" where
  "is_finite x = (case x of Finite q \<Rightarrow> True | _ \<Rightarrow> False)"

text \<open>The geocode of a name as the specification words it: the coordinates of the first
  stop with that name whose longitude and latitude both parse as finite numbers.\<close>

definition first_finite_geocode :: "row list \<Rightarrow> string \<Rightarrow> coords option" where
  "first_finite_geocode rs name =
     (case find (\<lambda>r. r ''stop_name'' = Some name
                    \<and> (case coords_of r of
                         None \<Rightarrow> False
                       | Some (x, y) \<Rightarrow> is_finite x \<and> is_finite y)) rs of
        None \<Rightarrow> None
      | Some r \<Rightarrow> coords_of r)"

text \<open>The geocode of a name as the loop computes it.\<close>

definition first_geocode :: "row list \<Rightarrow> string \<Rightarrow> coords option" where
  "first_geocode rs name =
     (case find (\<lambda>r. r ''stop_name'' = Some name \<and> coords_of r \<noteq> None) rs of
        None \<Rightarrow> None
      | Some r \<Rightarrow> coords_of r)"

text \<open>The trip chosen for a key: the first trip in source order of a qualifying route
  with that route and direction.\<close>

definition first_trip :: "string set \<Rightarrow> row list \<Rightarrow> trip_key \<Rightarrow> row option" where
  "first_trip ids rs k =
     find (\<lambda>r. r ''route_id'' = Some (fst k) \<and> fst k \<in> ids
              \<and> text_or_empty (r ''direction_id'') = snd k) rs"

definition qualifying_route_ids :: "row list \<Rightarrow> string set" where
  "qualifying_route_ids rs =
     {i. \<exists>r \<in> set rs. member_opt (r ''route_type'') route_types \<and> r ''route_id'' = Some i}"

text \<open>A node that is an endpoint of some edge.\<close>

definition is_endpoint :: "graph \<Rightarrow> string \<Rightarrow> bool" where
  "is_endpoint g n \<longleftrightarrow> n \<in> set (map fst (edges g)) \<or> n \<in> set (map (fst \<circ> snd) (edges g))"

text \<open>The order of the sort keys written out: by trip id, then by the integer.\<close>

definition key_le :: "string \<times> int \<Rightarrow> string \<times> int \<Rightarrow> bool" where
  "key_le a b \<longleftrightarrow> fst a < fst b \<or> (fst a = fst b \<and> snd a \<le> snd b)"

subsection \<open>Example feeds\<close>

definition mk_row :: "(string \<times> string) list \<Rightarrow> row" where
  "mk_row kvs = map_of kvs"

definition stop_row :: "string \<Rightarrow> string \<Rightarrow> string \<Rightarrow> string \<Rightarrow> row" where
  "stop_row i name lon lat =
     mk_row [(''stop_id'', i), (''stop_name'', name), (''zone_id'', ''P''),
             (''stop_lon'', lon), (''stop_lat'', lat)]"

definition stop_time_row :: "string \<Rightarrow> string \<Rightarrow> string \<Rightarrow> string \<Rightarrow> string \<Rightarrow> row" where
  "stop_time_row t i sq arr dep =
     mk_row [(''trip_id'', t), (''stop_id'', i), (''stop_sequence'', sq),
             (''arrival_time'', arr), (''departure_time'', dep)]"

definition trip_row :: "string \<Rightarrow> string \<Rightarrow> string \<Rightarrow> row" where
  "trip_row t rt d = mk_row [(''trip_id'', t), (''route_id'', rt), (''direction_id'', d)]"

definition route_row :: "string \<Rightarrow> string \<Rightarrow> row" where
  "route_row rt ty = mk_row [(''route_id'', rt), (''route_type'', ty)]"

definition example_stops :: "row list" where
  "example_stops =
     [stop_row ''s1'' ''A'' ''14.4'' ''50.0'',
      stop_row ''s2'' ''B'' [] ''50.0'',
      stop_row ''s3'' ''C'' ''14.5'' ''50.1'']"

definition example_trips :: "row list" where
  "example_trips =
     [trip_row ''t1'' ''r1'' ''0'', trip_row ''t2'' ''r2'' ''0'', trip_row ''t3'' ''r2'' ''0'']"

definition example_routes :: "row list" where
  "example_routes = [route_row ''r1'' ''0'', route_row ''r2'' ''1'', route_row ''r3'' ''3'']"

text \<open>Two selected trips run from A to B, in 4 and in 6 minutes.\<close>

definition two_trip_feed :: feed where
  "two_trip_feed =
     \<lparr>stops = example_stops,
      stop_times =
        [stop_time_row ''t1'' ''s1'' ''2'' ''08:00:00'' ''08:00:00'',
         stop_time_row ''t1'' ''s2'' ''10'' ''08:04:00'' ''08:04:00'',
         stop_time_row ''t2'' ''s1'' ''1'' ''09:00:00'' ''09:00:00'',
         stop_time_row ''t2'' ''s2'' ''2'' ''09:06:00'' ''09:06:00''],
      trips = example_trips,
      routes = example_routes\<rparr>"

text \<open>One trip whose first departure has a non-numeric minute field.\<close>

definition bad_time_feed :: feed where
  "bad_time_feed =
     \<lparr>stops = example_stops,
      stop_times =
        [stop_time_row ''t1'' ''s1'' ''1'' ''08:00:00'' ''08:xx:00'',
         stop_time_row ''t1'' ''s2'' ''2'' ''08:04:00'' ''08:04:00''],
      trips = example_trips,
      routes = example_routes\<rparr>"

text \<open>The visits of the selected trips of \<open>two_trip_feed\<close>, and the graph built from
  it.\<close>

definition two_trip_table :: "(string \<times> visit list) list" where
  "two_trip_table =
     [(''t1'', [\<lparr>stop_name = ''A'', arrival = ''08:00:00'', departure = ''08:00:00''\<rparr>,
                \<lparr>stop_name = ''B'', arrival = ''08:04:00'', departure = ''08:04:00''\<rparr>]),
      (''t2'', [\<lparr>stop_name = ''A'', arrival = ''09:00:00'', departure = ''09:00:00''\<rparr>,
                \<lparr>stop_name = ''B'', arrival = ''09:06:00'', departure = ''09:06:00''\<rparr>])]"

definition two_trip_graph :: graph where
  "two_trip_graph =
     \<lparr>nodes = [(''A'', Some (Finite (72 / 5), Finite 50)), (''B'', None)],
      edges = [(''A'', ''B'', 5), (''A'', ''B'', 5)]\<rparr>"

text \<open>One trip from A to B and back to A; the arrival back at A is a parameter. The trip
  leaves B at 08:05:00.\<close>

definition there_and_back_feed :: "string \<Rightarrow> feed" where
  "there_and_back_feed back =
     \<lparr>stops = example_stops,
      stop_times =
        [stop_time_row ''t1'' ''s1'' ''1'' ''08:00:00'' ''08:00:00'',
         stop_time_row ''t1'' ''s2'' ''2'' ''08:04:00'' ''08:05:00'',
         stop_time_row ''t1'' ''s1'' ''3'' back back],
      trips = example_trips,
      routes = example_routes\<rparr>"

definition there_and_back_table :: "string \<Rightarrow> (string \<times> visit list) list" where
  "there_and_back_table back =
     [(''t1'', [\<lparr>stop_name = ''A'', arrival = ''08:00:00'', departure = ''08:00:00''\<rparr>,
                \<lparr>stop_name = ''B'', arrival = ''08:04:00'', departure = ''08:05:00''\<rparr>,
                \<lparr>stop_name = ''A'', arrival = back, departure = back\<rparr>])]"

text \<open>The graph built from \<open>there_and_back_feed\<close>, given the averaged times from B to A.\<close>

definition there_and_back_graph :: "rat list \<Rightarrow> graph" where
  "there_and_back_graph ts =
     \<lparr>nodes = [(''A'', Some (Finite (72 / 5), Finite 50)), (''B'', None)],
      edges = (''A'', ''B'', 4) # map (\<lambda>t. (''B'', ''A'', t)) ts\<rparr>"

text \<open>Three stop times of one trip with the stop sequences 2, 10 and 3.\<close>

definition sequence_rows :: "row list" where
  "sequence_rows =
     [stop_time_row ''t1'' ''s1'' ''2'' ''08:00:00'' ''08:00:00'',
      stop_time_row ''t1'' ''s2'' ''10'' ''08:09:00'' ''08:09:00'',
      stop_time_row ''t1'' ''s3'' ''3'' ''08:04:00'' ''08:04:00'']"

text \<open>The same stop times in the order of the sort.\<close>

definition sorted_sequence_rows :: "row list" where
  "sorted_sequence_rows =
     [stop_time_row ''t1'' ''s1'' ''2'' ''08:00:00'' ''08:00:00'',
      stop_time_row ''t1'' ''s3'' ''3'' ''08:04:00'' ''08:04:00'',
      stop_time_row ''t1'' ''s2'' ''10'' ''08:09:00'' ''08:09:00'']"

text \<open>The example trips and a fourth trip without a direction id.\<close>

definition direction_trips :: "row list" where
  "direction_trips =
     example_trips @ [mk_row [(''trip_id'', ''t4''), (''route_id'', ''r1'')]]"

text \<open>Two stops named A; the longitude of the first is the text \<open>inf\<close>.\<close>

definition inf_stops :: "row list" where
  "inf_stops =
     [stop_row ''s1'' ''A'' ''inf'' ''50.0'',
      stop_row ''s2'' ''A'' ''14.4'' ''50.1'']"

text \<open>The duration in minutes of a consecutive pair of visits whose times both parse,
  and the consecutive pairs of visits of a directed pair of stop names.\<close>

definition duration :: "visit \<Rightarrow> visit \<Rightarrow> rat option" where
  "duration c n =
     (case (parse_gtfs_time (departure c), parse_gtfs_time (arrival n)) of
        (Inr (Some dep), Inr (Some arr)) \<Rightarrow> Some (rat_of_int (arr - dep) / 60)
      | _ \<Rightarrow> None)"

definition occurrences :: "(string \<times> visit list) list \<Rightarrow> pair \<Rightarrow> (visit \<times> visit) list" where
  "occurrences tbt p =
     filter (\<lambda>cn. (stop_name (fst cn), stop_name (snd cn)) = p)
       (concat (map (\<lambda>t. consecutive (snd t)) tbt))"

subsection \<open>Auxiliary notions of the proofs\<close>

text \<open>Every node is an endpoint of an edge; the edge emitted for a consecutive pair that
  has an averaged time; the list stored under a key of a \<open>defaultdict(list)\<close>; no key
  with an empty list.\<close>

definition covered :: "graph \<Rightarrow> bool" where
  "covered g \<longleftrightarrow> (\<forall>n \<in> fst ` set (nodes g). is_endpoint g n)"

definition emit :: "(pair \<times> rat) list \<Rightarrow> pair \<Rightarrow> (string \<times> string \<times> rat) option" where
  "emit avg p = map_option (\<lambda>w. (fst p, snd p, w)) (map_of avg p)"

definition lookup_list :: "('k \<times> 'v list) list \<Rightarrow> 'k \<Rightarrow> 'v list" where
  "lookup_list d k = (case map_of d k of None \<Rightarrow> [] | Some vs \<Rightarrow> vs)"

definition nonempty_values :: "('k \<times> 'v list) list \<Rightarrow> bool" where
  "nonempty_values d \<longleftrightarrow> (\<forall>(k, vs) \<in> set d. vs \<noteq> [])"

text \<open>The value of a run of decimal digits read after \<open>acc\<close>.\<close>

definition digit_fold :: "nat \<Rightarrow> string \<Rightarrow> nat" where
  "digit_fold acc ds = foldl (\<lambda>a c. a * 10 + digit_val c) acc ds"

section \<open>Properties of the stages\<close>

lemma edges_add_node: "edges (add_node n g) = edges g"
  by (simp add: add_node_def)

lemma keys_add_node: "fst ` set (nodes (add_node n g)) = insert n (fst ` set (nodes g))"
  by (cases "map_of (nodes g) n") (auto simp: add_node_def map_of_eq_None_iff dest: map_of_SomeD intro: rev_image_eqI)

lemma edges_add_edge: "edges (add_edge u v w g) = edges g @ [(u, v, w)]"
  by (simp add: add_edge_def)

lemma keys_add_edge: "fst ` set (nodes (add_edge u v w g)) = insert u (insert v (fst ` set (nodes g)))"
  by (auto simp: add_edge_def keys_add_node)

lemma edges_set_node_attributes: "edges (set_node_attributes info g) = edges g"
  unfolding set_node_attributes_def
  by (induction info arbitrary: g) (auto split: prod.splits)

lemma keys_set_node_attributes:
  "map fst (nodes (set_node_attributes info g)) = map fst (nodes g)"
  unfolding set_node_attributes_def
proof (induction info arbitrary: g)
  case Nil
  then show ?case by simp
next
  case (Cons a info)
  obtain n d where a: "a = (n, d)" by (cases a)
  show ?case
  proof (cases "map_of (nodes g) n = None")
    case True
    then show ?thesis using Cons a by simp
  next
    case False
    then have "n \<in> fst ` set (nodes g)" by (simp add: map_of_eq_None_iff)
    then have "map fst (AList.update n (Some d) (nodes g)) = map fst (nodes g)"
      by (simp add: update_keys)
    then show ?thesis using Cons a False by simp
  qed
qed

lemma covered_add_edge: "covered g \<Longrightarrow> covered (add_edge u v w g)"
  unfolding covered_def is_endpoint_def keys_add_edge edges_add_edge
  by auto

lemma covered_trip_edges: "covered g \<Longrightarrow> covered (trip_edges avg names g)"
  by (induction avg names g rule: trip_edges.induct) (auto simp: covered_add_edge split: option.splits)

lemma covered_all_edges: "covered g \<Longrightarrow> covered (all_edges avg tbt g)"
  unfolding all_edges_def
  by (induction tbt arbitrary: g) (auto simp: covered_trip_edges)

lemma covered_empty: "covered empty_graph"
  by (simp add: covered_def empty_graph_def)

lemma build_graph_Inr:
  assumes "build_graph f = Inr g"
  obtains info tbt st where
    "trip_table f = Inr tbt" "segment_times tbt [] = Inr st"
    "g = set_node_attributes info (all_edges (avg_segment_time st) tbt empty_graph)"
    "stop_info_by_name (stop_rows (stops f)) [] = Inr info"
  using assms unfolding build_graph_def trip_table_def
  by (auto split: sum.splits)

lemma consecutive_Cons2: "consecutive (a # b # rest) = (a, b) # consecutive (b # rest)"
  by (simp add: consecutive_def)

lemma consecutive_short: "consecutive [] = []" "consecutive [a] = []"
  by (simp_all add: consecutive_def)

lemma edges_trip_edges:
  "edges (trip_edges avg names g) = edges g @ List.map_filter (emit avg) (consecutive names)"
proof (induction avg names g rule: trip_edges.induct)
  case (1 avg from_stop to_stop rest g)
  then show ?case
    by (cases "map_of avg (from_stop, to_stop)")
       (simp_all add: consecutive_Cons2 map_filter_simps emit_def edges_add_edge)
qed (simp_all add: consecutive_short map_filter_simps)

lemma edges_all_edges:
  "edges (all_edges avg tbt g) =
     edges g @ concat (map (\<lambda>(trip_id, rows). List.map_filter (emit avg) (consecutive (map stop_name rows))) tbt)"
  unfolding all_edges_def
  by (induction tbt arbitrary: g) (auto simp: edges_trip_edges)

lemma count_emit:
  "length (filter (\<lambda>e. fst e = u \<and> fst (snd e) = v) (List.map_filter (emit avg) ps)) =
     (if map_of avg (u, v) = None then 0 else length (filter (\<lambda>q. q = (u, v)) ps))"
  by (induction ps) (auto simp: map_filter_simps emit_def split: option.splits)

lemma count_concat_emit:
  "length (filter (\<lambda>e. fst e = u \<and> fst (snd e) = v)
     (concat (map (\<lambda>(trip_id, rows). List.map_filter (emit avg) (consecutive (map stop_name rows))) tbt))) =
   (if map_of avg (u, v) = None then 0
    else length (filter (\<lambda>q. q = (u, v))
           (concat (map (\<lambda>(trip_id, rows). consecutive (map stop_name rows)) tbt))))"
proof (induction tbt)
  case Nil
  then show ?case by simp
next
  case (Cons a tbt)
  then show ?case by (cases a) (simp add: count_emit)
qed

lemma set_map_filter_iff: "y \<in> set (List.map_filter f xs) \<longleftrightarrow> (\<exists>x \<in> set xs. f x = Some y)"
  by (induction xs) (auto split: option.splits)

lemma emit_eq: "emit avg p = Some (u, v, w) \<longleftrightarrow> p = (u, v) \<and> map_of avg (u, v) = Some w"
  by (cases p) (auto simp: emit_def)

lemma in_edges_all_edges:
  "(u, v, w) \<in> set (edges (all_edges avg tbt empty_graph)) \<longleftrightarrow>
     map_of avg (u, v) = Some w \<and>
     (\<exists>x \<in> set tbt. (u, v) \<in> set (consecutive (map stop_name (snd x))))"
  by (auto simp: edges_all_edges empty_graph_def set_map_filter_iff emit_eq case_prod_beta)

lemma lookup_append_to:
  "lookup_list (append_to k v d) p = (if p = k then lookup_list d k @ [v] else lookup_list d p)"
  by (simp add: lookup_list_def append_to_def map_of_map_default split: option.splits)

lemma nonempty_append_to: "nonempty_values d \<Longrightarrow> nonempty_values (append_to k v d)"
  unfolding nonempty_values_def append_to_def
  by (induction d) (auto split: if_splits)

lemma trip_samples_Cons2:
  "trip_samples p (c # n # rest) =
     (if (stop_name c, stop_name n) = p
      then (case sample_of c n of None \<Rightarrow> [] | Some t \<Rightarrow> [t]) else []) @ trip_samples p (n # rest)"
  by (simp add: trip_samples_def consecutive_def map_filter_simps split: option.splits)

lemma trip_samples_short: "trip_samples p [] = []" "trip_samples p [c] = []"
  by (simp_all add: trip_samples_def consecutive_def map_filter_simps)

lemma trip_segment_times_step:
  "trip_segment_times (c # n # rest) acc =
     (case parse_gtfs_time (departure c) of
        Inl e \<Rightarrow> Inl e
      | Inr dep \<Rightarrow>
          (case parse_gtfs_time (arrival n) of
             Inl e \<Rightarrow> Inl e
           | Inr arr \<Rightarrow>
               trip_segment_times (n # rest)
                 (case sample_of c n of
                    None \<Rightarrow> acc
                  | Some t \<Rightarrow> append_to (stop_name c, stop_name n) t acc)))"
  by (auto simp: sample_of_def divide_less_0_iff split: sum.splits option.splits)

lemma trip_segment_times_lookup:
  "trip_segment_times rows acc = Inr acc' \<Longrightarrow>
     lookup_list acc' p = lookup_list acc p @ trip_samples p rows"
proof (induction rows arbitrary: acc rule: induct_list012)
  case 1
  then show ?case by (simp add: trip_samples_short)
next
  case (2 x)
  then show ?case by (simp add: trip_samples_short)
next
  case (3 c n rest)
  from "3.prems" obtain dep arr where
    d: "parse_gtfs_time (departure c) = Inr dep" and
    a: "parse_gtfs_time (arrival n) = Inr arr" and
    r: "trip_segment_times (n # rest)
          (case sample_of c n of None \<Rightarrow> acc
           | Some t \<Rightarrow> append_to (stop_name c, stop_name n) t acc) = Inr acc'"
    unfolding trip_segment_times_step by (auto split: sum.splits)
  from "3.IH"(2)[OF r] show ?case
    by (cases "sample_of c n") (auto simp: trip_samples_Cons2 lookup_append_to)
qed

lemma trip_segment_times_nonempty:
  "trip_segment_times rows acc = Inr acc' \<Longrightarrow> nonempty_values acc \<Longrightarrow> nonempty_values acc'"
proof (induction rows arbitrary: acc rule: induct_list012)
  case (3 c n rest)
  from "3.prems"(1) obtain dep arr where
    r: "trip_segment_times (n # rest)
          (case sample_of c n of None \<Rightarrow> acc
           | Some t \<Rightarrow> append_to (stop_name c, stop_name n) t acc) = Inr acc'"
    unfolding trip_segment_times_step by (auto split: sum.splits)
  show ?case
    by (rule "3.IH"(2)[OF r]) (use "3.prems"(2) in \<open>auto simp: nonempty_append_to split: option.splits\<close>)
qed simp_all

lemma segment_times_lookup:
  "segment_times tbt acc = Inr acc' \<Longrightarrow>
     lookup_list acc' p = lookup_list acc p @ pair_samples tbt p"
proof (induction tbt arbitrary: acc)
  case Nil
  then show ?case by (simp add: pair_samples_def)
next
  case (Cons a tbt)
  obtain tid rows where a: "a = (tid, rows)" by (cases a)
  from Cons.prems a obtain mid where
    m: "trip_segment_times rows acc = Inr mid" and r: "segment_times tbt mid = Inr acc'"
    by (auto split: sum.splits)
  from Cons.IH[OF r] trip_segment_times_lookup[OF m, of p] show ?case
    by (simp add: a pair_samples_def)
qed

lemma segment_times_nonempty:
  "segment_times tbt acc = Inr acc' \<Longrightarrow> nonempty_values acc \<Longrightarrow> nonempty_values acc'"
proof (induction tbt arbitrary: acc)
  case Nil
  then show ?case by simp
next
  case (Cons a tbt)
  obtain tid rows where a: "a = (tid, rows)" by (cases a)
  from Cons.prems(1) a obtain mid where
    m: "trip_segment_times rows acc = Inr mid" and r: "segment_times tbt mid = Inr acc'"
    by (auto split: sum.splits)
  show ?case
    by (rule Cons.IH[OF r]) (rule trip_segment_times_nonempty[OF m Cons.prems(2)])
qed

lemma map_of_avg_segment_time:
  "nonempty_values st \<Longrightarrow> map_of (avg_segment_time st) p = map_option mean (map_of st p)"
  unfolding avg_segment_time_def nonempty_values_def
  by (induction st) (auto simp: mean_def)

lemma avg_of_segment_times:
  assumes "segment_times tbt [] = Inr st"
  shows "map_of (avg_segment_time st) p =
           (if pair_samples tbt p = [] then None else Some (mean (pair_samples tbt p)))"
proof -
  have ne: "nonempty_values st"
    by (rule segment_times_nonempty[OF assms]) (simp add: nonempty_values_def)
  have l: "lookup_list st p = pair_samples tbt p"
    using segment_times_lookup[OF assms, of p] by (simp add: lookup_list_def)
  show ?thesis
  proof (cases "map_of st p")
    case None
    then show ?thesis using l by (simp add: map_of_avg_segment_time[OF ne] lookup_list_def)
  next
    case (Some vs)
    then have "(p, vs) \<in> set st" by (rule map_of_SomeD)
    then have "vs \<noteq> []" using ne by (auto simp: nonempty_values_def)
    then show ?thesis using l Some by (simp add: map_of_avg_segment_time[OF ne] lookup_list_def)
  qed
qed

lemma selected_route_ids_eq:
  "selected_route_ids rs = Inr ids \<Longrightarrow> ids = qualifying_route_ids rs"
proof (induction rs arbitrary: ids)
  case Nil
  then show ?case by (simp add: qualifying_route_ids_def)
next
  case (Cons r rs)
  show ?case
  proof (cases "member_opt (r ''route_type'') route_types")
    case False
    with Cons show ?thesis by (auto simp: qualifying_route_ids_def)
  next
    case True
    with Cons.prems obtain i ids' where
      i: "r ''route_id'' = Some i" and r: "selected_route_ids rs = Inr ids'" and e: "ids = insert i ids'"
      by (auto simp: getitem_def split: option.splits sum.splits)
    from Cons.IH[OF r] True i e show ?thesis by (auto simp: qualifying_route_ids_def)
  qed
qed

lemma first_trip_Nil: "first_trip ids [] k = None"
  by (simp add: first_trip_def)

lemma first_trip_Cons:
  "first_trip ids (r # rs) k =
     (if r ''route_id'' = Some (fst k) \<and> fst k \<in> ids \<and> text_or_empty (r ''direction_id'') = snd k
      then Some r else first_trip ids rs k)"
  by (simp add: first_trip_def)

lemma select_trips_lookup:
  "select_trips ids rs acc = Inr sel \<Longrightarrow>
     map_of sel k = (case map_of acc k of Some t \<Rightarrow> Some t
                     | None \<Rightarrow> (case first_trip ids rs k of None \<Rightarrow> None | Some r \<Rightarrow> r ''trip_id''))"
proof (induction ids rs acc arbitrary: sel rule: select_trips.induct)
  case (1 ids selected_trips)
  then show ?case by (simp add: first_trip_Nil split: option.splits)
next
  case (2 ids r rs selected_trips)
  show ?case
  proof (cases "r ''route_id''")
    case None
    with "2.prems" have "select_trips ids rs selected_trips = Inr sel" by simp
    from "2.IH"(1)[OF None this] None show ?thesis by (simp add: first_trip_Cons split: option.splits)
  next
    case (Some i)
    let ?key = "(i, text_or_empty (r ''direction_id''))"
    show ?thesis
    proof (cases "i \<notin> ids")
      case True
      with "2.prems" Some have "select_trips ids rs selected_trips = Inr sel" by simp
      from "2.IH"(2)[OF Some True this] Some True show ?thesis by (auto simp: first_trip_Cons split: option.splits)
    next
      case False
      show ?thesis
      proof (cases "map_of selected_trips ?key \<noteq> None")
        case True
        with "2.prems" Some False have s: "select_trips ids rs selected_trips = Inr sel" by simp
        from "2.IH"(3)[OF Some False True s] Some False True show ?thesis
          by (cases "k = ?key") (auto simp: first_trip_Cons split: option.splits)
      next
        case nk: False
        with "2.prems" Some False obtain t where
          t: "r ''trip_id'' = Some t" and
          s: "select_trips ids rs (AList.update ?key t selected_trips) = Inr sel"
          by (auto simp: getitem_def split: option.splits)
        have g: "getitem r ''trip_id'' = Inr t" by (simp add: getitem_def t)
        from "2.IH"(4)[OF Some False nk g s] Some False nk t show ?thesis
          by (cases "k = ?key") (auto simp: first_trip_Cons update_conv' split: option.splits)
      qed
    qed
  qed
qed

lemma stop_info_step:
  "r ''stop_name'' = Some name \<Longrightarrow>
   stop_info_by_name (r # rs) info =
     stop_info_by_name rs
       (if map_of info name \<noteq> None then info
        else (case coords_of r of None \<Rightarrow> info | Some c \<Rightarrow> AList.update name c info))"
  by (auto simp: getitem_def coords_of_def split: sum.splits)

lemma stop_info_lookup:
  "\<forall>r \<in> set rs. r ''stop_name'' \<noteq> None \<Longrightarrow>
   \<exists>out. stop_info_by_name rs info = Inr out \<and>
     (\<forall>name. map_of out name = (case map_of info name of Some c \<Rightarrow> Some c | None \<Rightarrow> first_geocode rs name))"
proof (induction rs arbitrary: info)
  case Nil
  then show ?case by (simp add: first_geocode_def split: option.splits)
next
  case (Cons r rs)
  then obtain n where n: "r ''stop_name'' = Some n" by auto
  let ?info' = "(if map_of info n \<noteq> None then info
        else (case coords_of r of None \<Rightarrow> info | Some c \<Rightarrow> AList.update n c info))"
  from Cons.prems have "\<forall>r \<in> set rs. r ''stop_name'' \<noteq> None" by simp
  from Cons.IH[OF this, of ?info'] obtain out where
    o: "stop_info_by_name rs ?info' = Inr out" and
    l: "\<And>name. map_of out name = (case map_of ?info' name of Some c \<Rightarrow> Some c | None \<Rightarrow> first_geocode rs name)"
    by blast
  have "stop_info_by_name (r # rs) info = stop_info_by_name rs ?info'"
    using n by (rule stop_info_step)
  with o have "stop_info_by_name (r # rs) info = Inr out" by simp
  moreover have "map_of out name = (case map_of info name of Some c \<Rightarrow> Some c | None \<Rightarrow> first_geocode (r # rs) name)" for name
    unfolding l using n
    by (auto simp: first_geocode_def update_conv' split: option.splits)
  ultimately show ?case by blast
qed

lemma stop_rows_named: "\<forall>r \<in> set (stop_rows rs). r ''stop_name'' \<noteq> None"
  by (auto simp: stop_rows_def truthy_def split: option.splits)

lemma with_keys_map:
  "with_keys rs = Inr krs \<Longrightarrow> map snd krs = rs \<and> map sort_key_of rs = map (Inr \<circ> fst) krs"
  by (induction rs arbitrary: krs) (auto split: sum.splits)

lemma key_le_iff: "key_le a b \<longleftrightarrow> a \<le> b"
  by (cases a; cases b) (auto simp: key_le_def)

lemma str_split_nonempty: "str_split sep s \<noteq> []"
  by (induction s) (auto split: list.splits)

lemma parse_three:
  "str_split CHR '':'' t = [p0, p1, p2] \<Longrightarrow> py_int p0 = Inr h \<Longrightarrow> py_int p1 = Inr m \<Longrightarrow> py_int p2 = Inr s
   \<Longrightarrow> parse_gtfs_time t = Inr (Some (h * 3600 + m * 60 + s))"
  by (cases t) (auto simp: parse_gtfs_time_def)

lemma build_graph_via_trip_table:
  "build_graph f =
     (case trip_table f of
        Inl e \<Rightarrow> Inl e
      | Inr tbt \<Rightarrow>
          (case segment_times tbt [] of
             Inl e \<Rightarrow> Inl e
           | Inr st \<Rightarrow>
               (case stop_info_by_name (stop_rows (stops f)) [] of
                  Inl e \<Rightarrow> Inl e
                | Inr info \<Rightarrow>
                    Inr (set_node_attributes info
                           (all_edges (avg_segment_time st) tbt empty_graph)))))"
  unfolding build_graph_def trip_table_def
  by (simp split: sum.splits)

lemma consecutive_map: "consecutive (map f xs) = map (map_prod f f) (consecutive xs)"
  by (simp only: consecutive_def map_tl[symmetric] zip_map_map map_prod_def)

lemma pair_samples_occurrences:
  "pair_samples tbt p = List.map_filter (\<lambda>cn. sample_of (fst cn) (snd cn)) (occurrences tbt p)"
proof (induction tbt)
  case Nil
  then show ?case by (simp add: pair_samples_def occurrences_def)
next
  case (Cons a tbt)
  have t: "trip_samples p rows =
        List.map_filter (\<lambda>cn. sample_of (fst cn) (snd cn))
          (filter (\<lambda>cn. (stop_name (fst cn), stop_name (snd cn)) = p) xs)"
    if "xs = consecutive rows" for rows xs
    unfolding trip_samples_def that[symmetric]
    by (induction xs) (auto simp: case_prod_beta split: option.splits if_splits)
  have app: "List.map_filter g (xs @ ys) = List.map_filter g xs @ List.map_filter g ys"
    for g :: "visit \<times> visit \<Rightarrow> rat option" and xs ys
    by (simp add: List.map_filter_def)
  from Cons show ?case
    by (cases a) (simp add: pair_samples_def occurrences_def t app)
qed

lemma sample_of_duration:
  "sample_of c n = (case duration c n of None \<Rightarrow> None | Some t \<Rightarrow> if t < 0 then None else Some t)"
  by (auto simp: sample_of_def duration_def divide_less_0_iff split: sum.splits option.splits)

lemma occurrences_names:
  assumes "cn \<in> set (occurrences tbt p)"
  shows "\<exists>x \<in> set tbt. p \<in> set (consecutive (map stop_name (snd x)))"
proof -
  from assms obtain x where x: "x \<in> set tbt" "cn \<in> set (consecutive (snd x))"
    and p: "p = (stop_name (fst cn), stop_name (snd cn))"
    by (auto simp: occurrences_def)
  have "map_prod stop_name stop_name cn \<in> set (consecutive (map stop_name (snd x)))"
    unfolding consecutive_map using x(2) by simp
  then have "p \<in> set (consecutive (map stop_name (snd x)))"
    by (simp add: p map_prod_def case_prod_beta)
  with x(1) show ?thesis by blast
qed

lemma map_filter_nonempty_iff:
  "List.map_filter g xs \<noteq> [] \<longleftrightarrow> (\<exists>x \<in> set xs. g x \<noteq> None)"
  by (induction xs) (auto split: option.splits)

lemma pair_samples_nonempty_iff:
  "pair_samples tbt p \<noteq> [] \<longleftrightarrow>
     (\<exists>cn \<in> set (occurrences tbt p). sample_of (fst cn) (snd cn) \<noteq> None)"
  unfolding pair_samples_occurrences by (rule map_filter_nonempty_iff)

lemma build_graph_edges:
  assumes "build_graph f = Inr g" and "trip_table f = Inr tbt"
  shows "(u, v, w) \<in> set (edges g) \<longleftrightarrow>
           pair_samples tbt (u, v) \<noteq> [] \<and> w = mean (pair_samples tbt (u, v))"
proof -
  from assms(1) obtain info tbt' st where
    t: "trip_table f = Inr tbt'" and s: "segment_times tbt' [] = Inr st" and
    g: "g = set_node_attributes info (all_edges (avg_segment_time st) tbt' empty_graph)"
    by (rule build_graph_Inr)
  from t assms(2) have [simp]: "tbt' = tbt" by simp
  have e: "(u, v, w) \<in> set (edges g) \<longleftrightarrow>
        map_of (avg_segment_time st) (u, v) = Some w \<and>
        (\<exists>x \<in> set tbt. (u, v) \<in> set (consecutive (map stop_name (snd x))))"
    by (simp add: g edges_set_node_attributes in_edges_all_edges)
  have a: "map_of (avg_segment_time st) (u, v) =
        (if pair_samples tbt (u, v) = [] then None else Some (mean (pair_samples tbt (u, v))))"
    using avg_of_segment_times[of tbt st "(u, v)"] s by simp
  have n: "\<exists>x \<in> set tbt. (u, v) \<in> set (consecutive (map stop_name (snd x)))"
    if "pair_samples tbt (u, v) \<noteq> []"
    using that occurrences_names unfolding pair_samples_nonempty_iff by blast
  show ?thesis unfolding e a using n by auto
qed

lemma build_graph_parallel_edges:
  assumes "build_graph f = Inr g" and "trip_table f = Inr tbt" and "segment_times tbt [] = Inr st"
  shows "parallel_edges g u v = traversals (avg_segment_time st) tbt (u, v)"
proof -
  from assms(1) obtain info tbt' st' where
    t: "trip_table f = Inr tbt'" and s: "segment_times tbt' [] = Inr st'" and
    g: "g = set_node_attributes info (all_edges (avg_segment_time st') tbt' empty_graph)"
    by (rule build_graph_Inr)
  from t assms(2) have [simp]: "tbt' = tbt" by simp
  from s assms(3) have [simp]: "st' = st" by simp
  show ?thesis
    by (simp add: parallel_edges_def traversals_def g edges_set_node_attributes edges_all_edges
        empty_graph_def count_concat_emit)
qed

lemma lookup_list_segment_times:
  "segment_times tbt [] = Inr st \<Longrightarrow> lookup_list st p = pair_samples tbt p"
  using segment_times_lookup[of tbt "[]" st p] by (simp add: lookup_list_def)

lemma map_filter_nonneg:
  "List.map_filter (\<lambda>x. case d x of None \<Rightarrow> None | Some t \<Rightarrow> if t < 0 then None else Some t) xs =
     filter (\<lambda>t. (0::rat) \<le> t) (List.map_filter d xs)"
  by (induction xs) (auto split: option.splits)

lemma pair_samples_durations:
  "pair_samples tbt p =
     filter (\<lambda>t. 0 \<le> t) (List.map_filter (\<lambda>cn. duration (fst cn) (snd cn)) (occurrences tbt p))"
  unfolding pair_samples_occurrences sample_of_duration by (rule map_filter_nonneg)

lemma with_keys_elems:
  "with_keys rs = Inr krs \<Longrightarrow> \<forall>kr \<in> set krs. sort_key_of (snd kr) = Inr (fst kr)"
  by (induction rs arbitrary: krs) (auto split: sum.splits)

lemma sorted_stop_times_keys:
  assumes "sorted_stop_times rs = Inr out"
  obtains krs where "with_keys rs = Inr krs" "out = map snd (sort_key fst krs)"
    "map sort_key_of out = map Inr (map fst (sort_key fst krs))"
proof -
  from assms obtain krs where k: "with_keys rs = Inr krs" and o: "out = map snd (sort_key fst krs)"
    by (auto simp: sorted_stop_times_def split: sum.splits)
  have "\<forall>kr \<in> set (sort_key fst krs). sort_key_of (snd kr) = Inr (fst kr)"
    using with_keys_elems[OF k] by simp
  then have "map sort_key_of out = map Inr (map fst (sort_key fst krs))"
    unfolding o by (induction "sort_key fst krs") auto
  with k o that show ?thesis by blast
qed

lemma key_le_eq: "key_le = (\<le>)"
  by (intro ext) (simp add: key_le_iff)

lemma filter_keys_rows:
  "\<forall>kr \<in> set krs. sort_key_of (snd kr) = Inr (fst kr) \<Longrightarrow>
     map snd (filter (\<lambda>kr. fst kr = k) krs) = filter (\<lambda>r. sort_key_of r = Inr k) (map snd krs)"
  by (induction krs) auto

lemma select_trips_distinct:
  "select_trips ids rs acc = Inr sel \<Longrightarrow> distinct (map fst acc) \<Longrightarrow> distinct (map fst sel)"
proof (induction ids rs acc arbitrary: sel rule: select_trips.induct)
  case (1 ids selected_trips)
  then show ?case by simp
next
  case (2 ids r rs selected_trips)
  show ?case
  proof (cases "r ''route_id''")
    case None
    with "2.prems" "2.IH"(1) show ?thesis by simp
  next
    case (Some i)
    show ?thesis
    proof (cases "i \<notin> ids")
      case True
      with "2.prems" "2.IH"(2) Some show ?thesis by simp
    next
      case False
      show ?thesis
      proof (cases "map_of selected_trips (i, text_or_empty (r ''direction_id'')) \<noteq> None")
        case True
        with "2.prems" "2.IH"(3) Some False show ?thesis by simp
      next
        case nk: False
        with "2.prems"(1) Some False obtain t where
          g: "getitem r ''trip_id'' = Inr t" and
          s: "select_trips ids rs
                (AList.update (i, text_or_empty (r ''direction_id'')) t selected_trips) = Inr sel"
          by (auto split: sum.splits)
        from "2.prems"(2) have
          "distinct (map fst (AList.update (i, text_or_empty (r ''direction_id'')) t selected_trips))"
          by (rule distinct_update)
        with "2.IH"(4)[OF Some False nk g s] show ?thesis by simp
      qed
    qed
  qed
qed

lemma stop_name_by_id_dom_fold:
  "map_of (fold (\<lambda>r d. if truthy (r ''stop_id'') \<and> truthy (r ''stop_name'')
                  then AList.update (text_or_empty (r ''stop_id''))
                         (text_or_empty (r ''stop_name'')) d
                  else d) rs acc) i \<noteq> None \<longleftrightarrow>
     map_of acc i \<noteq> None \<or>
     (\<exists>r \<in> set rs. truthy (r ''stop_id'') \<and> truthy (r ''stop_name'')
        \<and> text_or_empty (r ''stop_id'') = i)"
  by (induction rs arbitrary: acc) (auto simp: update_conv')

lemma stop_rows_truthy: "r \<in> set (stop_rows rs) \<Longrightarrow> truthy (r ''stop_name'')"
  by (simp add: stop_rows_def)

section \<open>The examples, evaluated\<close>

lemmas num_defs =
  py_int_def split_sign_def strip_def is_space_def digit_group_def is_digit_def digit_val_def

lemmas float_defs =
  py_float_def lower_def decimal_value_def is_exp_mark_def mantissa_value_def
  exponent_value_def overflow_bound_def

lemmas row_defs =
  mk_row_def stop_row_def stop_time_row_def trip_row_def route_row_def getitem_def
  truthy_def text_or_empty_def member_opt_def route_types_def valid_zone_ids_def

lemmas stage_defs =
  stop_rows_def stop_name_by_id_def selected_stop_times_def sort_key_of_def
  sorted_stop_times_def append_to_def

lemmas graph_defs =
  append_to_def avg_segment_time_def empty_graph_def add_node_def add_edge_def
  all_edges_def set_node_attributes_def

lemmas example_defs = example_stops_def example_trips_def example_routes_def

lemma parse_0800: "parse_gtfs_time ''08:00:00'' = Inr (Some 28800)"
  by (simp add: parse_gtfs_time_def num_defs)

lemma parse_0804: "parse_gtfs_time ''08:04:00'' = Inr (Some 29040)"
  by (simp add: parse_gtfs_time_def num_defs)

lemma parse_0805: "parse_gtfs_time ''08:05:00'' = Inr (Some 29100)"
  by (simp add: parse_gtfs_time_def num_defs)

lemma parse_0808: "parse_gtfs_time ''08:08:00'' = Inr (Some 29280)"
  by (simp add: parse_gtfs_time_def num_defs)

lemma parse_0815: "parse_gtfs_time ''08:15:00'' = Inr (Some 29700)"
  by (simp add: parse_gtfs_time_def num_defs)

lemma parse_0900: "parse_gtfs_time ''09:00:00'' = Inr (Some 32400)"
  by (simp add: parse_gtfs_time_def num_defs)

lemma parse_0906: "parse_gtfs_time ''09:06:00'' = Inr (Some 32760)"
  by (simp add: parse_gtfs_time_def num_defs)

lemma parse_bad_minutes: "parse_gtfs_time ''08:xx:00'' = Inl ValueError"
  by (simp add: parse_gtfs_time_def num_defs)

lemmas parse_examples =
  parse_0800 parse_0804 parse_0805 parse_0808 parse_0815 parse_0900 parse_0906
  parse_bad_minutes

lemma stop_info_example_stops:
  "stop_info_by_name (stop_rows example_stops) [] =
     Inr [(''A'', Finite (72 / 5), Finite 50), (''C'', Finite (29 / 2), Finite (501 / 10))]"
  by (simp add: example_defs row_defs stage_defs num_defs float_defs)

lemma trip_table_two_trip_feed: "trip_table two_trip_feed = Inr two_trip_table"
  by (simp add: trip_table_def two_trip_feed_def two_trip_table_def example_defs row_defs
      stage_defs num_defs float_defs)

lemma segment_times_two_trip_table:
  "segment_times two_trip_table [] = Inr [((''A'', ''B''), [4, 6])]"
  by (simp add: two_trip_table_def parse_examples append_to_def)

lemma stops_two_trip_feed: "stops two_trip_feed = example_stops"
  by (simp add: two_trip_feed_def)

lemma build_graph_two_trip_feed: "build_graph two_trip_feed = Inr two_trip_graph"
  by (simp add: build_graph_via_trip_table trip_table_two_trip_feed
      segment_times_two_trip_table stops_two_trip_feed stop_info_example_stops)
     (simp add: two_trip_table_def two_trip_graph_def graph_defs)

lemma trip_table_bad_time_feed:
  "trip_table bad_time_feed =
     Inr [(''t1'', [\<lparr>stop_name = ''A'', arrival = ''08:00:00'', departure = ''08:xx:00''\<rparr>,
                    \<lparr>stop_name = ''B'', arrival = ''08:04:00'', departure = ''08:04:00''\<rparr>])]"
  by (simp add: trip_table_def bad_time_feed_def example_defs row_defs stage_defs num_defs
      float_defs)

lemma trip_table_there_and_back:
  "trip_table (there_and_back_feed back) = Inr (there_and_back_table back)"
  by (simp add: trip_table_def there_and_back_feed_def there_and_back_table_def example_defs
      row_defs stage_defs num_defs float_defs)

lemma stops_there_and_back: "stops (there_and_back_feed back) = example_stops"
  by (simp add: there_and_back_feed_def)

lemma segment_times_back_0804:
  "segment_times (there_and_back_table ''08:04:00'') [] = Inr [((''A'', ''B''), [4])]"
  by (simp add: there_and_back_table_def parse_examples append_to_def)

lemma segment_times_back_0805:
  "segment_times (there_and_back_table ''08:05:00'') [] =
     Inr [((''A'', ''B''), [4]), ((''B'', ''A''), [0])]"
  by (simp add: there_and_back_table_def parse_examples append_to_def)

lemma segment_times_back_0808:
  "segment_times (there_and_back_table ''08:08:00'') [] =
     Inr [((''A'', ''B''), [4]), ((''B'', ''A''), [3])]"
  by (simp add: there_and_back_table_def parse_examples append_to_def)

lemma segment_times_back_0815:
  "segment_times (there_and_back_table ''08:15:00'') [] =
     Inr [((''A'', ''B''), [4]), ((''B'', ''A''), [10])]"
  by (simp add: there_and_back_table_def parse_examples append_to_def)

lemma build_graph_back_0804:
  "build_graph (there_and_back_feed ''08:04:00'') = Inr (there_and_back_graph [])"
  by (simp add: build_graph_via_trip_table trip_table_there_and_back segment_times_back_0804
      stops_there_and_back stop_info_example_stops)
     (simp add: there_and_back_table_def there_and_back_graph_def graph_defs)

lemma build_graph_back_0805:
  "build_graph (there_and_back_feed ''08:05:00'') = Inr (there_and_back_graph [0])"
  by (simp add: build_graph_via_trip_table trip_table_there_and_back segment_times_back_0805
      stops_there_and_back stop_info_example_stops)
     (simp add: there_and_back_table_def there_and_back_graph_def graph_defs)

lemma build_graph_back_0808:
  "build_graph (there_and_back_feed ''08:08:00'') = Inr (there_and_back_graph [3])"
  by (simp add: build_graph_via_trip_table trip_table_there_and_back segment_times_back_0808
      stops_there_and_back stop_info_example_stops)
     (simp add: there_and_back_table_def there_and_back_graph_def graph_defs)

lemma build_graph_back_0815:
  "build_graph (there_and_back_feed ''08:15:00'') = Inr (there_and_back_graph [10])"
  by (simp add: build_graph_via_trip_table trip_table_there_and_back segment_times_back_0815
      stops_there_and_back stop_info_example_stops)
     (simp add: there_and_back_table_def there_and_back_graph_def graph_defs)

lemma occurrences_back:
  "occurrences (there_and_back_table back) (''B'', ''A'') =
     [(\<lparr>stop_name = ''B'', arrival = ''08:04:00'', departure = ''08:05:00''\<rparr>,
       \<lparr>stop_name = ''A'', arrival = back, departure = back\<rparr>)]"
  by (simp add: occurrences_def there_and_back_table_def consecutive_def)

lemma pair_samples_back:
  "pair_samples (there_and_back_table back) (''A'', ''B'') = [4]"
  by (simp add: pair_samples_def trip_samples_def there_and_back_table_def consecutive_def
      sample_of_def parse_examples)

lemma stop_time_row_fields:
  "stop_time_row t i sq a d ''trip_id'' = Some t"
  "stop_time_row t i sq a d ''stop_id'' = Some i"
  "stop_time_row t i sq a d ''stop_sequence'' = Some sq"
  "stop_time_row t i sq a d ''arrival_time'' = Some a"
  "stop_time_row t i sq a d ''departure_time'' = Some d"
  by (simp_all add: stop_time_row_def mk_row_def)

lemma sort_key_of_stop_time_row:
  "sort_key_of (stop_time_row t i sq a d) =
     (case py_int sq of Inl e \<Rightarrow> Inl e | Inr n \<Rightarrow> Inr (t, n))"
  by (simp add: sort_key_of_def getitem_def stop_time_row_fields)

lemma py_int_examples: "py_int ''2'' = Inr 2" "py_int ''3'' = Inr 3" "py_int ''10'' = Inr 10"
  by (simp_all add: num_defs)

lemma sorted_stop_times_sequence_rows: "sorted_stop_times sequence_rows = Inr sorted_sequence_rows"
  by (simp add: sorted_stop_times_def sequence_rows_def sorted_sequence_rows_def
      sort_key_of_stop_time_row py_int_examples)

lemma selected_example_routes: "selected_route_ids example_routes = Inr {''r1'', ''r2''}"
  by (simp add: example_defs row_defs)

lemma select_direction_trips:
  "select_trips {''r1'', ''r2''} direction_trips [] =
     Inr [((''r1'', ''0''), ''t1''), ((''r2'', ''0''), ''t2''), ((''r1'', ''''), ''t4'')]"
  by (simp add: direction_trips_def example_defs row_defs)

lemma py_float_examples:
  "py_float ''inf'' = Inr (Infinity False)"
  "py_float ''14.4'' = Inr (Finite (72 / 5))"
  "py_float ''50.0'' = Inr (Finite 50)"
  "py_float ''50.1'' = Inr (Finite (501 / 10))"
  by (simp_all add: float_defs num_defs)

lemma stop_row_fields:
  "stop_row i name lon lat ''stop_id'' = Some i"
  "stop_row i name lon lat ''stop_name'' = Some name"
  "stop_row i name lon lat ''zone_id'' = Some ''P''"
  "stop_row i name lon lat ''stop_lon'' = Some lon"
  "stop_row i name lon lat ''stop_lat'' = Some lat"
  by (simp_all add: stop_row_def mk_row_def)

lemma stop_rows_inf_stops: "stop_rows inf_stops = inf_stops"
  by (simp add: stop_rows_def inf_stops_def stop_row_fields member_opt_def truthy_def
      valid_zone_ids_def)

lemma stop_info_inf_stops:
  "stop_info_by_name (stop_rows inf_stops) [] = Inr [(''A'', Infinity False, Finite 50)]"
  by (simp add: stop_rows_inf_stops)
     (simp add: inf_stops_def getitem_def stop_row_fields text_or_empty_def py_float_examples)

lemma coords_of_inf_stops:
  "coords_of (stop_row ''s1'' ''A'' ''inf'' ''50.0'') = Some (Infinity False, Finite 50)"
  "coords_of (stop_row ''s2'' ''A'' ''14.4'' ''50.1'') = Some (Finite (72 / 5), Finite (501 / 10))"
  by (simp_all add: coords_of_def stop_row_fields text_or_empty_def py_float_examples)

lemma stop_rows_example_stops: "stop_rows example_stops = example_stops"
  by (simp add: stop_rows_def example_stops_def stop_row_fields member_opt_def truthy_def
      valid_zone_ids_def)

lemma digits_from_digits:
  "\<forall>c \<in> set ds. is_digit c \<Longrightarrow> digits_from acc ds = Some (digit_fold acc ds)"
  by (induction acc ds rule: digits_from.induct) (auto simp: digit_fold_def)

lemma digit_group_digits:
  assumes "ds \<noteq> []" and "\<forall>c \<in> set ds. is_digit c"
  shows "digit_group ds = Some (digit_fold 0 ds)"
proof (cases ds)
  case Nil
  with assms(1) show ?thesis by simp
next
  case (Cons c cs)
  with assms(2) have "is_digit c" "\<forall>c \<in> set cs. is_digit c" by simp_all
  then show ?thesis
    by (simp add: Cons digit_group_def digits_from_digits digit_fold_def)
qed

lemma digit_not_space: "is_digit c \<Longrightarrow> \<not> is_space c"
  by (auto simp: is_digit_def is_space_def)

lemma digit_not_sign: "is_digit c \<Longrightarrow> c \<noteq> CHR ''-'' \<and> c \<noteq> CHR ''+'' \<and> c \<noteq> CHR '':''"
  by (auto simp: is_digit_def)

lemma strip_digits:
  assumes "\<forall>c \<in> set ds. is_digit c"
  shows "strip ds = ds"
proof -
  have d: "dropWhile is_space xs = xs" if "\<forall>c \<in> set xs. is_digit c" for xs
    using that by (cases xs) (auto simp: digit_not_space)
  from assms have "\<forall>c \<in> set (rev ds). is_digit c" by simp
  then show ?thesis by (simp add: strip_def d[OF assms] d)
qed

lemma py_int_digits:
  assumes "ds \<noteq> []" and "\<forall>c \<in> set ds. is_digit c"
  shows "py_int ds = Inr (int (digit_fold 0 ds))"
proof -
  from assms obtain c cs where ds: "ds = c # cs" and c: "is_digit c" by (cases ds) auto
  have "split_sign ds = (False, ds)"
    using digit_not_sign[OF c] by (simp add: split_sign_def ds)
  then show ?thesis
    by (simp add: py_int_def strip_digits[OF assms(2)] digit_group_digits[OF assms])
qed

lemma digit_char:
  assumes "k < 10"
  shows "is_digit (char_of (48 + k)) \<and> digit_val (char_of (48 + k)) = k"
  using assms by (simp add: is_digit_def digit_val_def less_eq_char_def)

lemma decimal_exists:
  "\<exists>ds. ds \<noteq> [] \<and> (\<forall>c \<in> set ds. is_digit c) \<and> digit_fold 0 ds = n"
proof (induction n rule: less_induct)
  case (less n)
  show ?case
  proof (cases "n < 10")
    case True
    from digit_char[OF True] show ?thesis
      by (intro exI[of _ "[char_of (48 + n)]"]) (simp add: digit_fold_def)
  next
    case False
    then have "n div 10 < n" by simp
    from less.IH[OF this] obtain ds where
      ds: "ds \<noteq> []" "\<forall>c \<in> set ds. is_digit c" "digit_fold 0 ds = n div 10"
      by blast
    have m: "n mod 10 < 10" by simp
    from digit_char[OF m] ds show ?thesis
      by (intro exI[of _ "ds @ [char_of (48 + n mod 10)]"]) (simp add: digit_fold_def)
  qed
qed

lemma str_split_no_sep: "sep \<notin> set a \<Longrightarrow> str_split sep a = [a]"
  by (induction a) auto

lemma str_split_append:
  "sep \<notin> set a \<Longrightarrow> str_split sep (a @ sep # r) = a # str_split sep r"
  by (induction a) auto

lemma py_int_00: "py_int ''00'' = Inr 0"
  by (simp add: num_defs)

lemma hours_unbounded: "\<exists>p. parse_gtfs_time (p @ '':00:00'') = Inr (Some (int n * 3600))"
proof -
  from decimal_exists[of n] obtain ds where
    ds: "ds \<noteq> []" "\<forall>c \<in> set ds. is_digit c" "digit_fold 0 ds = n"
    by blast
  from ds(2) have ns: "CHR '':'' \<notin> set ds" using digit_not_sign by blast
  have s: "str_split CHR '':'' (ds @ '':00:00'') = [ds, ''00'', ''00'']"
    using str_split_append[OF ns, of "''00:00''"] by simp
  have p: "py_int ds = Inr (int n)" using py_int_digits[OF ds(1,2)] ds(3) by simp
  have "parse_gtfs_time (ds @ '':00:00'') = Inr (Some (int n * 3600 + 0 * 60 + 0))"
    by (rule parse_three[OF s p py_int_00 py_int_00])
  then show ?thesis by auto
qed

section \<open>The claims\<close>

text \<open>
  C1. The claim: a stop time of a selected trip whose time text has three fields, one of
  them not numeric (\<open>08:xx:00\<close>), does not make the construction raise; the sample is
  dropped. The code does not do this: \<open>_parse_gtfs_time\<close> returns \<open>None\<close> for an empty
  text and for a wrong number of fields, but calls \<open>int\<close> on the three fields unguarded,
  and nothing in \<open>_build_graph\<close> catches the \<open>ValueError\<close>. On \<open>bad_time_feed\<close>, whose
  first departure is \<open>08:xx:00\<close>, the construction raises \<open>ValueError\<close>.
\<close>

theorem build_graph_bad_time_raises: "build_graph bad_time_feed = Inl ValueError"
  by (simp add: build_graph_via_trip_table trip_table_bad_time_feed parse_examples)

text \<open>
  C5. A time text that splits at the colons into three fields, each accepted by \<open>int\<close>
  as \<open>h\<close>, \<open>m\<close> and \<open>s\<close>, parses to \<open>h * 3600 + m * 60 + s\<close> seconds. The hours
  are not bounded: every natural number \<open>n\<close> has a text \<open>p\<close> for which \<open>p:00:00\<close> parses
  to \<open>n * 3600\<close> seconds. The empty text parses to the unparseable marker \<open>None\<close>.
\<close>

theorem parse_gtfs_time_seconds:
  "(str_split CHR '':'' t = [p0, p1, p2] \<and> py_int p0 = Inr h \<and> py_int p1 = Inr m
      \<and> py_int p2 = Inr s
      \<longrightarrow> parse_gtfs_time t = Inr (Some (h * 3600 + m * 60 + s)))
   \<and> (\<exists>p. parse_gtfs_time (p @ '':00:00'') = Inr (Some (int n * 3600)))
   \<and> parse_gtfs_time [] = Inr None"
  using hours_unbounded[of n]
  by (auto simp: parse_three) (simp add: parse_gtfs_time_def)

theorem parse_gtfs_time_seconds_witness:
  "str_split CHR '':'' ''25:10:05'' = [''25'', ''10'', ''05'']
   \<and> py_int ''25'' = Inr 25 \<and> py_int ''10'' = Inr 10 \<and> py_int ''05'' = Inr 5
   \<and> parse_gtfs_time ''25:10:05'' = Inr (Some 90605)"
  using parse_gtfs_time_seconds[of "''25:10:05''" "''25''" "''10''" "''05''" 25 10 5]
  by (simp add: num_defs)

text \<open>
  C10. Every node of the graph that \<open>_build_graph\<close> returns is an endpoint of one of its
  edges, and attaching the coordinates leaves the sequence of node names as it is: nodes
  enter the graph only through \<open>add_edge\<close>, and \<open>set_node_attributes\<close> ignores the names
  that are not nodes.
\<close>

theorem nodes_are_endpoints:
  "build_graph f = Inr g \<longrightarrow>
     (\<forall>n \<in> fst ` set (nodes g). is_endpoint g n) \<and>
     (\<forall>info h. map fst (nodes (set_node_attributes info h)) = map fst (nodes h))"
proof (intro impI conjI allI)
  assume "build_graph f = Inr g"
  then obtain info tbt st where
    g: "g = set_node_attributes info (all_edges (avg_segment_time st) tbt empty_graph)"
    by (rule build_graph_Inr)
  have "covered (all_edges (avg_segment_time st) tbt empty_graph)"
    by (rule covered_all_edges[OF covered_empty])
  then have "covered g"
    unfolding g covered_def is_endpoint_def edges_set_node_attributes
    using keys_set_node_attributes[of info "all_edges (avg_segment_time st) tbt empty_graph"]
    by (metis image_set)
  then show "\<forall>n \<in> fst ` set (nodes g). is_endpoint g n"
    by (simp add: covered_def)
next
  fix info h
  show "map fst (nodes (set_node_attributes info h)) = map fst (nodes h)"
    by (rule keys_set_node_attributes)
qed

text \<open>On \<open>two_trip_feed\<close> the nodes are A and B; the stop C passes the filters and has
  coordinates but lies on no trip, and is not a node.\<close>

theorem nodes_are_endpoints_witness:
  "build_graph two_trip_feed = Inr two_trip_graph
   \<and> map fst (nodes two_trip_graph) = [''A'', ''B'']
   \<and> is_endpoint two_trip_graph ''A'' \<and> is_endpoint two_trip_graph ''B''
   \<and> map_of (nodes two_trip_graph) ''C'' = None"
  using nodes_are_endpoints[of two_trip_feed two_trip_graph] build_graph_two_trip_feed
  by (simp add: two_trip_graph_def)

text \<open>
  C2. The claim: the graph has at most one edge per directed pair of stop names. The graph
  is a multigraph and \<open>add_edge\<close> is called once for every consecutive pair of every
  selected trip, so a pair traversed twice has two parallel edges: on \<open>two_trip_feed\<close>
  there are two edges from A to B.
\<close>

theorem one_edge_per_pair_counterexample:
  "build_graph two_trip_feed = Inr two_trip_graph \<and> \<not> parallel_edges two_trip_graph ''A'' ''B'' \<le> 1"
  by (simp add: build_graph_two_trip_feed) (simp add: parallel_edges_def two_trip_graph_def)

text \<open>
  C2, amended. The graph has one edge for each traversal of a directed pair by a selected
  trip, provided the pair has an averaged time, and all the edges of one directed pair
  carry the same value.
\<close>

theorem one_value_per_pair:
  "build_graph f = Inr g \<and> trip_table f = Inr tbt \<and> segment_times tbt [] = Inr st \<longrightarrow>
     parallel_edges g u v = traversals (avg_segment_time st) tbt (u, v) \<and>
     ((u, v, w) \<in> set (edges g) \<and> (u, v, w') \<in> set (edges g) \<longrightarrow> w = w')"
  using build_graph_parallel_edges[of f g tbt st u v] build_graph_edges[of f g tbt u v]
  by auto

theorem one_value_per_pair_witness:
  "build_graph two_trip_feed = Inr two_trip_graph
   \<and> trip_table two_trip_feed = Inr two_trip_table
   \<and> segment_times two_trip_table [] = Inr [((''A'', ''B''), [4, 6])]
   \<and> parallel_edges two_trip_graph ''A'' ''B'' = 2
   \<and> traversals (avg_segment_time [((''A'', ''B''), [4, 6])]) two_trip_table (''A'', ''B'') = 2
   \<and> (''A'', ''B'', 5) \<in> set (edges two_trip_graph)"
proof -
  have h: "build_graph two_trip_feed = Inr two_trip_graph
      \<and> trip_table two_trip_feed = Inr two_trip_table
      \<and> segment_times two_trip_table [] = Inr [((''A'', ''B''), [4, 6])]"
    by (simp only: build_graph_two_trip_feed trip_table_two_trip_feed
        segment_times_two_trip_table simp_thms)
  from one_value_per_pair[of two_trip_feed two_trip_graph two_trip_table
      "[((''A'', ''B''), [4, 6])]" "''A''" "''B''" 5 5] h
  have c: "parallel_edges two_trip_graph ''A'' ''B'' =
      traversals (avg_segment_time [((''A'', ''B''), [4, 6])]) two_trip_table (''A'', ''B'')"
    by blast
  have t: "traversals (avg_segment_time [((''A'', ''B''), [4, 6])]) two_trip_table (''A'', ''B'') = 2"
    by (simp add: traversals_def avg_segment_time_def consecutive_def two_trip_table_def)
  have e: "(''A'', ''B'', 5) \<in> set (edges two_trip_graph)"
    by (simp add: two_trip_graph_def)
  from h c t e show ?thesis by simp
qed

text \<open>
  C3. The averaged time of a directed pair is the arithmetic mean of its surviving samples
  (there is no entry when there is none), every edge of the graph carries the mean of the
  samples of its pair, and the mean of a single sample is that sample. With the samples 4
  and 6 the mean is 5, on both edges.
\<close>

theorem edges_carry_mean:
  "trip_table f = Inr tbt \<and> segment_times tbt [] = Inr st \<and> build_graph f = Inr g \<longrightarrow>
     map_of (avg_segment_time st) p =
       (if pair_samples tbt p = [] then None else Some (mean (pair_samples tbt p))) \<and>
     ((u, v, w) \<in> set (edges g) \<longrightarrow>
        pair_samples tbt (u, v) \<noteq> [] \<and> w = mean (pair_samples tbt (u, v))) \<and>
     mean [x] = x"
  using avg_of_segment_times[of tbt st p] build_graph_edges[of f g tbt u v w]
  by (auto simp: mean_def)

theorem edges_carry_mean_witness:
  "trip_table two_trip_feed = Inr two_trip_table
   \<and> segment_times two_trip_table [] = Inr [((''A'', ''B''), [4, 6])]
   \<and> build_graph two_trip_feed = Inr two_trip_graph
   \<and> pair_samples two_trip_table (''A'', ''B'') = [4, 6]
   \<and> mean [4, 6] = 5
   \<and> map_of (avg_segment_time [((''A'', ''B''), [4, 6])]) (''A'', ''B'') = Some 5
   \<and> edges two_trip_graph = [(''A'', ''B'', 5), (''A'', ''B'', 5)]"
proof -
  have h: "trip_table two_trip_feed = Inr two_trip_table
      \<and> segment_times two_trip_table [] = Inr [((''A'', ''B''), [4, 6])]
      \<and> build_graph two_trip_feed = Inr two_trip_graph"
    by (simp only: build_graph_two_trip_feed trip_table_two_trip_feed
        segment_times_two_trip_table simp_thms)
  have ps: "pair_samples two_trip_table (''A'', ''B'') = [4, 6]"
    by (simp add: pair_samples_def trip_samples_def consecutive_def two_trip_table_def
        sample_of_def parse_examples)
  have m: "mean [4, 6] = 5" by (simp add: mean_def)
  from edges_carry_mean[of two_trip_feed two_trip_table "[((''A'', ''B''), [4, 6])]"
      two_trip_graph "(''A'', ''B'')" "''A''" "''B''" 5 0] h
  have "map_of (avg_segment_time [((''A'', ''B''), [4, 6])]) (''A'', ''B'') =
      (if pair_samples two_trip_table (''A'', ''B'') = [] then None
       else Some (mean (pair_samples two_trip_table (''A'', ''B''))))"
    by blast
  then have a: "map_of (avg_segment_time [((''A'', ''B''), [4, 6])]) (''A'', ''B'') = Some 5"
    by (simp add: ps m)
  have e: "edges two_trip_graph = [(''A'', ''B'', 5), (''A'', ''B'', 5)]"
    by (simp add: two_trip_graph_def)
  from h ps m a e show ?thesis by simp
qed

text \<open>
  C6. The samples stored for a directed pair are the durations of its consecutive visits
  that are not negative, in order: a negative duration is left out, not replaced by zero.
  A pair all of whose occurrences have a negative duration has no edge, and a pair with
  an occurrence of duration zero has an edge.
\<close>

theorem negative_samples_dropped:
  "trip_table f = Inr tbt \<and> segment_times tbt [] = Inr st \<and> build_graph f = Inr g \<longrightarrow>
     lookup_list st (u, v) =
       filter (\<lambda>t. 0 \<le> t)
         (List.map_filter (\<lambda>cn. duration (fst cn) (snd cn)) (occurrences tbt (u, v))) \<and>
     ((\<forall>cn \<in> set (occurrences tbt (u, v)). \<exists>t. duration (fst cn) (snd cn) = Some t \<and> t < 0)
        \<longrightarrow> (u, v, w) \<notin> set (edges g)) \<and>
     ((\<exists>cn \<in> set (occurrences tbt (u, v)). duration (fst cn) (snd cn) = Some 0)
        \<longrightarrow> (\<exists>w'. (u, v, w') \<in> set (edges g)))"
proof (intro impI conjI; (elim conjE)?)
  assume t: "trip_table f = Inr tbt" and s: "segment_times tbt [] = Inr st"
    and b: "build_graph f = Inr g"
  show "lookup_list st (u, v) =
      filter (\<lambda>t. 0 \<le> t)
        (List.map_filter (\<lambda>cn. duration (fst cn) (snd cn)) (occurrences tbt (u, v)))"
    using lookup_list_segment_times[OF s] pair_samples_durations by simp
  {
    assume "\<forall>cn \<in> set (occurrences tbt (u, v)). \<exists>t. duration (fst cn) (snd cn) = Some t \<and> t < 0"
    then have "\<forall>cn \<in> set (occurrences tbt (u, v)). sample_of (fst cn) (snd cn) = None"
      by (auto simp: sample_of_duration)
    then have "\<not> pair_samples tbt (u, v) \<noteq> []"
      unfolding pair_samples_nonempty_iff by simp
    then have "pair_samples tbt (u, v) = []" by simp
    then show "(u, v, w) \<notin> set (edges g)"
      using build_graph_edges[OF b t, of u v w] by simp
  }
  {
    assume "\<exists>cn \<in> set (occurrences tbt (u, v)). duration (fst cn) (snd cn) = Some 0"
    then obtain cn where cn: "cn \<in> set (occurrences tbt (u, v))"
      and z: "duration (fst cn) (snd cn) = Some 0" by blast
    from z have "sample_of (fst cn) (snd cn) = Some 0"
      by (simp add: sample_of_duration)
    with cn have "\<exists>cn \<in> set (occurrences tbt (u, v)). sample_of (fst cn) (snd cn) \<noteq> None"
      by force
    then have "pair_samples tbt (u, v) \<noteq> []"
      using pair_samples_nonempty_iff[of tbt "(u, v)"] by blast
    then show "\<exists>w'. (u, v, w') \<in> set (edges g)"
      using build_graph_edges[OF b t, of u v] by blast
  }
qed

theorem negative_samples_dropped_witness:
  "trip_table (there_and_back_feed ''08:04:00'') = Inr (there_and_back_table ''08:04:00'')
   \<and> segment_times (there_and_back_table ''08:04:00'') [] = Inr [((''A'', ''B''), [4])]
   \<and> build_graph (there_and_back_feed ''08:04:00'') = Inr (there_and_back_graph [])
   \<and> duration \<lparr>stop_name = ''B'', arrival = ''08:04:00'', departure = ''08:05:00''\<rparr>
        \<lparr>stop_name = ''A'', arrival = ''08:04:00'', departure = ''08:04:00''\<rparr> = Some (- 1)
   \<and> (''B'', ''A'', 0) \<notin> set (edges (there_and_back_graph []))
   \<and> trip_table (there_and_back_feed ''08:05:00'') = Inr (there_and_back_table ''08:05:00'')
   \<and> segment_times (there_and_back_table ''08:05:00'') [] =
        Inr [((''A'', ''B''), [4]), ((''B'', ''A''), [0])]
   \<and> build_graph (there_and_back_feed ''08:05:00'') = Inr (there_and_back_graph [0])
   \<and> duration \<lparr>stop_name = ''B'', arrival = ''08:04:00'', departure = ''08:05:00''\<rparr>
        \<lparr>stop_name = ''A'', arrival = ''08:05:00'', departure = ''08:05:00''\<rparr> = Some 0
   \<and> (''B'', ''A'', 0) \<in> set (edges (there_and_back_graph [0]))"
proof -
  have d1: "duration \<lparr>stop_name = ''B'', arrival = ''08:04:00'', departure = ''08:05:00''\<rparr>
        \<lparr>stop_name = ''A'', arrival = ''08:04:00'', departure = ''08:04:00''\<rparr> = Some (- 1)"
    by (simp add: duration_def parse_examples)
  have d2: "duration \<lparr>stop_name = ''B'', arrival = ''08:04:00'', departure = ''08:05:00''\<rparr>
        \<lparr>stop_name = ''A'', arrival = ''08:05:00'', departure = ''08:05:00''\<rparr> = Some 0"
    by (simp add: duration_def parse_examples)
  have h1: "trip_table (there_and_back_feed ''08:04:00'') = Inr (there_and_back_table ''08:04:00'')
      \<and> segment_times (there_and_back_table ''08:04:00'') [] = Inr [((''A'', ''B''), [4])]
      \<and> build_graph (there_and_back_feed ''08:04:00'') = Inr (there_and_back_graph [])"
    by (simp only: trip_table_there_and_back segment_times_back_0804 build_graph_back_0804
        simp_thms)
  have h2: "trip_table (there_and_back_feed ''08:05:00'') = Inr (there_and_back_table ''08:05:00'')
      \<and> segment_times (there_and_back_table ''08:05:00'') [] =
          Inr [((''A'', ''B''), [4]), ((''B'', ''A''), [0])]
      \<and> build_graph (there_and_back_feed ''08:05:00'') = Inr (there_and_back_graph [0])"
    by (simp only: trip_table_there_and_back segment_times_back_0805 build_graph_back_0805
        simp_thms)
  have n: "\<forall>cn \<in> set (occurrences (there_and_back_table ''08:04:00'') (''B'', ''A'')).
      \<exists>t. duration (fst cn) (snd cn) = Some t \<and> t < 0"
    by (simp add: occurrences_back d1)
  have z: "\<exists>cn \<in> set (occurrences (there_and_back_table ''08:05:00'') (''B'', ''A'')).
      duration (fst cn) (snd cn) = Some 0"
    by (simp add: occurrences_back d2)
  from negative_samples_dropped[of "there_and_back_feed ''08:04:00''"
      "there_and_back_table ''08:04:00''" "[((''A'', ''B''), [4])]" "there_and_back_graph []"
      "''B''" "''A''" 0] h1 n
  have e1: "(''B'', ''A'', 0) \<notin> set (edges (there_and_back_graph []))" by blast
  from negative_samples_dropped[of "there_and_back_feed ''08:05:00''"
      "there_and_back_table ''08:05:00''" "[((''A'', ''B''), [4]), ((''B'', ''A''), [0])]"
      "there_and_back_graph [0]" "''B''" "''A''" 0] h2 z
  have "\<exists>w'. (''B'', ''A'', w') \<in> set (edges (there_and_back_graph [0]))" by blast
  then have e2: "(''B'', ''A'', 0) \<in> set (edges (there_and_back_graph [0]))"
    by (simp add: there_and_back_graph_def)
  from h1 h2 d1 d2 e1 e2 show ?thesis by simp
qed

text \<open>
  C9. When two feeds yield the same samples for the pair (a, b), the averaged time of
  (a, b) is the same in both and the edges from a to b carry the same values, whatever
  the samples of the other pairs, (b, a) among them, are.
\<close>

theorem direction_independence:
  "trip_table f1 = Inr tbt1 \<and> segment_times tbt1 [] = Inr st1 \<and> build_graph f1 = Inr g1
   \<and> trip_table f2 = Inr tbt2 \<and> segment_times tbt2 [] = Inr st2 \<and> build_graph f2 = Inr g2
   \<and> pair_samples tbt1 (a, b) = pair_samples tbt2 (a, b)
   \<longrightarrow> map_of (avg_segment_time st1) (a, b) = map_of (avg_segment_time st2) (a, b)
       \<and> ((a, b, w) \<in> set (edges g1) \<longleftrightarrow> (a, b, w) \<in> set (edges g2))"
  using avg_of_segment_times[of tbt1 st1 "(a, b)"] avg_of_segment_times[of tbt2 st2 "(a, b)"]
    build_graph_edges[of f1 g1 tbt1 a b w] build_graph_edges[of f2 g2 tbt2 a b w]
  by auto

theorem direction_independence_witness:
  "trip_table (there_and_back_feed ''08:08:00'') = Inr (there_and_back_table ''08:08:00'')
   \<and> segment_times (there_and_back_table ''08:08:00'') [] =
        Inr [((''A'', ''B''), [4]), ((''B'', ''A''), [3])]
   \<and> build_graph (there_and_back_feed ''08:08:00'') = Inr (there_and_back_graph [3])
   \<and> trip_table (there_and_back_feed ''08:15:00'') = Inr (there_and_back_table ''08:15:00'')
   \<and> segment_times (there_and_back_table ''08:15:00'') [] =
        Inr [((''A'', ''B''), [4]), ((''B'', ''A''), [10])]
   \<and> build_graph (there_and_back_feed ''08:15:00'') = Inr (there_and_back_graph [10])
   \<and> pair_samples (there_and_back_table ''08:08:00'') (''A'', ''B'') =
        pair_samples (there_and_back_table ''08:15:00'') (''A'', ''B'')
   \<and> map_of (avg_segment_time [((''A'', ''B''), [4]), ((''B'', ''A''), [3])]) (''A'', ''B'') =
        map_of (avg_segment_time [((''A'', ''B''), [4]), ((''B'', ''A''), [10])]) (''A'', ''B'')
   \<and> map_of (avg_segment_time [((''A'', ''B''), [4]), ((''B'', ''A''), [3])]) (''B'', ''A'') =
        Some 3
   \<and> map_of (avg_segment_time [((''A'', ''B''), [4]), ((''B'', ''A''), [10])]) (''B'', ''A'') =
        Some 10"
proof -
  have h: "trip_table (there_and_back_feed ''08:08:00'') = Inr (there_and_back_table ''08:08:00'')
      \<and> segment_times (there_and_back_table ''08:08:00'') [] =
          Inr [((''A'', ''B''), [4]), ((''B'', ''A''), [3])]
      \<and> build_graph (there_and_back_feed ''08:08:00'') = Inr (there_and_back_graph [3])
      \<and> trip_table (there_and_back_feed ''08:15:00'') = Inr (there_and_back_table ''08:15:00'')
      \<and> segment_times (there_and_back_table ''08:15:00'') [] =
          Inr [((''A'', ''B''), [4]), ((''B'', ''A''), [10])]
      \<and> build_graph (there_and_back_feed ''08:15:00'') = Inr (there_and_back_graph [10])
      \<and> pair_samples (there_and_back_table ''08:08:00'') (''A'', ''B'') =
          pair_samples (there_and_back_table ''08:15:00'') (''A'', ''B'')"
    by (simp only: trip_table_there_and_back segment_times_back_0808 segment_times_back_0815
        build_graph_back_0808 build_graph_back_0815 pair_samples_back simp_thms)
  from direction_independence[of "there_and_back_feed ''08:08:00''"
      "there_and_back_table ''08:08:00''" "[((''A'', ''B''), [4]), ((''B'', ''A''), [3])]"
      "there_and_back_graph [3]" "there_and_back_feed ''08:15:00''"
      "there_and_back_table ''08:15:00''" "[((''A'', ''B''), [4]), ((''B'', ''A''), [10])]"
      "there_and_back_graph [10]" "''A''" "''B''" 4] h
  have c: "map_of (avg_segment_time [((''A'', ''B''), [4]), ((''B'', ''A''), [3])]) (''A'', ''B'') =
      map_of (avg_segment_time [((''A'', ''B''), [4]), ((''B'', ''A''), [10])]) (''A'', ''B'')"
    by blast
  have o: "map_of (avg_segment_time [((''A'', ''B''), [4]), ((''B'', ''A''), [3])]) (''B'', ''A'') =
        Some 3"
    "map_of (avg_segment_time [((''A'', ''B''), [4]), ((''B'', ''A''), [10])]) (''B'', ''A'') =
        Some 10"
    by (simp_all add: avg_segment_time_def)
  from h c o show ?thesis by simp
qed

text \<open>
  C4. The sorted stop times are the selected stop times in ascending order of the pairs of
  trip id and stop sequence read as an integer; they are a rearrangement of the input, and
  rows with the same pair keep their order. The stop sequences 2, 10 and 3 of one trip
  come out as 2, 3, 10, although the text 10 is below the text 2.
\<close>

theorem stop_times_sorted_numerically:
  "sorted_stop_times rs = Inr out \<longrightarrow>
     (\<exists>ks. map sort_key_of out = map Inr ks \<and> sorted_wrt key_le ks) \<and>
     mset out = mset rs \<and>
     filter (\<lambda>r. sort_key_of r = Inr k) out = filter (\<lambda>r. sort_key_of r = Inr k) rs"
proof (intro impI conjI)
  assume a: "sorted_stop_times rs = Inr out"
  then obtain krs where k: "with_keys rs = Inr krs" and o: "out = map snd (sort_key fst krs)"
    and m: "map sort_key_of out = map Inr (map fst (sort_key fst krs))"
    by (rule sorted_stop_times_keys)
  have "sorted_wrt key_le (map fst (sort_key fst krs))"
    unfolding key_le_eq by (rule sorted_sort_key)
  with m show "\<exists>ks. map sort_key_of out = map Inr ks \<and> sorted_wrt key_le ks" by blast
  have rs: "map snd krs = rs" using with_keys_map[OF k] by simp
  have "mset out = mset (map snd krs)"
    unfolding o by simp
  then show "mset out = mset rs" by (simp add: rs)
  have e: "\<forall>kr \<in> set krs. sort_key_of (snd kr) = Inr (fst kr)"
    by (rule with_keys_elems[OF k])
  then have e': "\<forall>kr \<in> set (sort_key fst krs). sort_key_of (snd kr) = Inr (fst kr)" by simp
  have "filter (\<lambda>r. sort_key_of r = Inr k) out =
      map snd (filter (\<lambda>kr. fst kr = k) (sort_key fst krs))"
    unfolding o by (rule filter_keys_rows[OF e', symmetric])
  also have "\<dots> = map snd (filter (\<lambda>kr. fst kr = k) krs)"
    by (simp add: sort_key_stable)
  also have "\<dots> = filter (\<lambda>r. sort_key_of r = Inr k) (map snd krs)"
    by (rule filter_keys_rows[OF e])
  finally show "filter (\<lambda>r. sort_key_of r = Inr k) out = filter (\<lambda>r. sort_key_of r = Inr k) rs"
    by (simp add: rs)
qed

theorem stop_times_sorted_numerically_witness:
  "sorted_stop_times sequence_rows = Inr sorted_sequence_rows
   \<and> map (\<lambda>r. r ''stop_sequence'') sequence_rows = [Some ''2'', Some ''10'', Some ''3'']
   \<and> map (\<lambda>r. r ''stop_sequence'') sorted_sequence_rows = [Some ''2'', Some ''3'', Some ''10'']
   \<and> map sort_key_of sorted_sequence_rows = map Inr [(''t1'', 2), (''t1'', 3), (''t1'', 10)]
   \<and> sorted_wrt key_le [(''t1'', 2), (''t1'', 3), (''t1'', 10 :: int)]
   \<and> ''10'' < ''2''"
proof -
  from stop_times_sorted_numerically[of sequence_rows sorted_sequence_rows]
    sorted_stop_times_sequence_rows
  obtain ks where k: "map sort_key_of sorted_sequence_rows = map Inr ks" "sorted_wrt key_le ks"
    by blast
  have m: "map sort_key_of sorted_sequence_rows = map Inr [(''t1'', 2), (''t1'', 3), (''t1'', 10)]"
    by (simp add: sorted_sequence_rows_def sort_key_of_stop_time_row py_int_examples)
  from k(1)[symmetric] m have "(map Inr ks :: (error + string \<times> int) list) =
      map Inr [(''t1'', 2), (''t1'', 3), (''t1'', 10)]"
    by (rule trans)
  then have "ks = [(''t1'', 2), (''t1'', 3), (''t1'', 10)]"
    by (simp only: inj_map_eq_map[OF inj_Inr])
  with k(2) have s: "sorted_wrt key_le [(''t1'', 2), (''t1'', 3), (''t1'', 10 :: int)]" by simp
  have f: "map (\<lambda>r. r ''stop_sequence'') sequence_rows = [Some ''2'', Some ''10'', Some ''3'']"
    "map (\<lambda>r. r ''stop_sequence'') sorted_sequence_rows = [Some ''2'', Some ''3'', Some ''10'']"
    by (simp_all add: sequence_rows_def sorted_sequence_rows_def stop_time_row_fields)
  have l: "''10'' < ''2''" by simp
  from sorted_stop_times_sequence_rows m s f l show ?thesis by simp
qed

text \<open>
  C7. The claim: each stop name is mapped to the coordinates of the first stop of that name
  whose longitude and latitude both parse as finite decimal numbers. The loop keeps the
  first stop whose two texts \<open>float\<close> accepts, and \<open>float\<close> accepts \<open>inf\<close> and \<open>nan\<close>:
  with a first stop A of longitude \<open>inf\<close> and a second stop A of longitude 14.4, the name
  A is mapped to the infinite longitude.
\<close>

theorem first_finite_geocode_counterexample:
  "stop_info_by_name (stop_rows inf_stops) [] = Inr [(''A'', Infinity False, Finite 50)]
   \<and> map_of [(''A'', Infinity False, Finite 50)] ''A'' \<noteq> first_finite_geocode (stop_rows inf_stops) ''A''
   \<and> first_finite_geocode (stop_rows inf_stops) ''A'' = Some (Finite (72 / 5), Finite (501 / 10))"
proof -
  have f: "first_finite_geocode (stop_rows inf_stops) ''A'' =
      Some (Finite (72 / 5), Finite (501 / 10))"
    unfolding stop_rows_inf_stops
    by (simp add: first_finite_geocode_def inf_stops_def stop_row_fields coords_of_inf_stops
        is_finite_def)
  show ?thesis by (simp add: stop_info_inf_stops f)
qed

text \<open>
  C7, amended. The geocoder never fails on the filtered stops, and maps each stop name to
  the coordinates of the first filtered stop of that name whose longitude and latitude
  texts are both non-empty and both accepted by \<open>float\<close>. Every filtered stop with a
  non-empty id is in the map from ids to names, whatever its coordinates are.
\<close>

theorem geocode_first_accepted:
  "(\<exists>info. stop_info_by_name (stop_rows rs) [] = Inr info
      \<and> (\<forall>name. map_of info name = first_geocode (stop_rows rs) name))
   \<and> (\<forall>r \<in> set (stop_rows rs). truthy (r ''stop_id'') \<longrightarrow>
        map_of (stop_name_by_id (stop_rows rs)) (text_or_empty (r ''stop_id'')) \<noteq> None)"
proof (intro conjI ballI impI)
  from stop_info_lookup[OF stop_rows_named, of rs "[]"]
  show "\<exists>info. stop_info_by_name (stop_rows rs) [] = Inr info
      \<and> (\<forall>name. map_of info name = first_geocode (stop_rows rs) name)"
    by simp
next
  fix r
  assume r: "r \<in> set (stop_rows rs)" and t: "truthy (r ''stop_id'')"
  from r have "truthy (r ''stop_name'')" by (rule stop_rows_truthy)
  with r t show "map_of (stop_name_by_id (stop_rows rs)) (text_or_empty (r ''stop_id'')) \<noteq> None"
    unfolding stop_name_by_id_def stop_name_by_id_dom_fold by blast
qed

theorem geocode_first_accepted_witness:
  "stop_rows example_stops = example_stops
   \<and> stop_row ''s2'' ''B'' [] ''50.0'' \<in> set (stop_rows example_stops)
   \<and> truthy (stop_row ''s2'' ''B'' [] ''50.0'' ''stop_id'')
   \<and> map_of (stop_name_by_id (stop_rows example_stops)) ''s2'' \<noteq> None
   \<and> first_geocode (stop_rows example_stops) ''B'' = None
   \<and> first_geocode (stop_rows example_stops) ''A'' = Some (Finite (72 / 5), Finite 50)"
proof -
  have m: "stop_row ''s2'' ''B'' [] ''50.0'' \<in> set (stop_rows example_stops)"
    by (simp add: stop_rows_example_stops) (simp add: example_stops_def)
  have t: "truthy (stop_row ''s2'' ''B'' [] ''50.0'' ''stop_id'')"
    by (simp add: truthy_def stop_row_fields)
  from geocode_first_accepted[of example_stops] m t
  have "map_of (stop_name_by_id (stop_rows example_stops))
      (text_or_empty (stop_row ''s2'' ''B'' [] ''50.0'' ''stop_id'')) \<noteq> None"
    by blast
  then have i: "map_of (stop_name_by_id (stop_rows example_stops)) ''s2'' \<noteq> None"
    by (simp add: stop_row_fields text_or_empty_def)
  have c: "coords_of (stop_row ''s1'' ''A'' ''14.4'' ''50.0'') = Some (Finite (72 / 5), Finite 50)"
    "coords_of (stop_row ''s2'' ''B'' [] ''50.0'') = None"
    by (simp_all add: coords_of_def stop_row_fields text_or_empty_def py_float_examples)
  have g: "first_geocode (stop_rows example_stops) ''B'' = None"
    "first_geocode (stop_rows example_stops) ''A'' = Some (Finite (72 / 5), Finite 50)"
    by (simp_all add: stop_rows_example_stops)
       (simp_all add: first_geocode_def example_stops_def stop_row_fields c)
  from stop_rows_example_stops m t i g show ?thesis by simp
qed

text \<open>
  C8. The selected route ids are those of the routes whose type is 0 or 1, and the
  selector maps each key of route id and direction id to the trip id of the first trip, in
  source order, of a selected route with that key; an absent direction id counts as the
  empty text, and no key occurs twice.
\<close>

theorem first_trip_selected:
  "selected_route_ids rs = Inr ids \<and> select_trips ids ts [] = Inr sel \<longrightarrow>
     ids = qualifying_route_ids rs \<and>
     map_of sel k = (case first_trip ids ts k of None \<Rightarrow> None | Some r \<Rightarrow> r ''trip_id'') \<and>
     distinct (map fst sel)"
  using selected_route_ids_eq[of rs ids] select_trips_lookup[of ids ts "[]" sel k]
    select_trips_distinct[of ids ts "[]" sel]
  by simp

theorem first_trip_selected_witness:
  "selected_route_ids example_routes = Inr {''r1'', ''r2''}
   \<and> select_trips {''r1'', ''r2''} direction_trips [] =
        Inr [((''r1'', ''0''), ''t1''), ((''r2'', ''0''), ''t2''), ((''r1'', ''''), ''t4'')]
   \<and> first_trip {''r1'', ''r2''} direction_trips (''r2'', ''0'') = Some (trip_row ''t2'' ''r2'' ''0'')
   \<and> map_of [((''r1'', ''0''), ''t1''), ((''r2'', ''0''), ''t2''), ((''r1'', ''''), ''t4'')]
        (''r2'', ''0'') = Some ''t2''"
proof -
  have h: "selected_route_ids example_routes = Inr {''r1'', ''r2''}
      \<and> select_trips {''r1'', ''r2''} direction_trips [] =
          Inr [((''r1'', ''0''), ''t1''), ((''r2'', ''0''), ''t2''), ((''r1'', ''''), ''t4'')]"
    by (simp only: selected_example_routes select_direction_trips simp_thms)
  have f: "first_trip {''r1'', ''r2''} direction_trips (''r2'', ''0'') =
      Some (trip_row ''t2'' ''r2'' ''0'')"
    by (simp add: first_trip_def direction_trips_def example_defs text_or_empty_def
        trip_row_def mk_row_def)
  from first_trip_selected[of example_routes "{''r1'', ''r2''}" direction_trips
      "[((''r1'', ''0''), ''t1''), ((''r2'', ''0''), ''t2''), ((''r1'', ''''), ''t4'')]"
      "(''r2'', ''0'')"] h
  have "map_of [((''r1'', ''0''), ''t1''), ((''r2'', ''0''), ''t2''), ((''r1'', ''''), ''t4'')]
      (''r2'', ''0'') =
      (case first_trip {''r1'', ''r2''} direction_trips (''r2'', ''0'') of
         None \<Rightarrow> None | Some r \<Rightarrow> r ''trip_id'')"
    by blast
  then have m: "map_of [((''r1'', ''0''), ''t1''), ((''r2'', ''0''), ''t2''), ((''r1'', ''''), ''t4'')]
      (''r2'', ''0'') = Some ''t2''"
    by (simp add: f trip_row_def mk_row_def)
  from h f m show ?thesis by simp
qed

end
